(* ===== verification/Prelude.thy ===== *)
theory Prelude
  imports Main
begin

text \<open>
  Shared vocabulary of the development: the error values the store raises, the
  JavaScript array and truthiness builtins the store calls (\<open>findIndex\<close>,
  \<open>splice(i, 1)\<close>, \<open>find\<close> followed by an in-place mutation of the found
  object, \<open>x || d\<close> on strings), and the list lemmas the component theories
  share. The collection \<open>js_simps\<close> gathers the evaluation rules of these
  builtins, so that component proofs say \<open>simp add: js_simps\<close>.
\<close>

named_theorems js_simps "evaluation rules of the modelled JavaScript builtins"

subsection \<open>Errors\<close>

text \<open>
  Every \<open>throw\<close> of \<open>src/page/src/stores/backend.js\<close> is a constructor:
  removal of the reserved instance (line 52), an unknown id in the probe (line 95),
  no active instance in \<open>buildApiUrl\<close> (line 137), a non-2xx answer in
  \<open>apiRequest\<close> (line 172, carrying status and status text), a transport failure
  of \<open>fetch\<close> (rethrown at line 189), and the \<open>TypeError\<close> JavaScript raises
  when \<open>.replace\<close> is called on an undefined \<open>baseUrl\<close> (line 140).
\<close>

datatype js_error =
    ProtectedInstanceError
  | InstanceNotFoundError
  | NoActiveInstanceError
  | RequestFailedError nat string
  | TransportError string
  | TypeError

subsection \<open>Array builtins\<close>

text \<open>\<open>Array.prototype.findIndex\<close>: the index of the first match, or \<open>-1\<close>.\<close>

fun findIndex :: "('a \<Rightarrow> bool) \<Rightarrow> 'a list \<Rightarrow> int" where
  "findIndex P [] = -1"
| "findIndex P (x # xs) =
     (if P x then 0 else (let r = findIndex P xs in if r = -1 then -1 else r + 1))"

text \<open>\<open>Array.prototype.splice(i, 1)\<close> on an index inside the array.\<close>

definition splice1 :: "'a list \<Rightarrow> nat \<Rightarrow> 'a list" where
  "splice1 xs i = take i xs @ drop (Suc i) xs"

text \<open>
  \<open>xs.find(P)\<close> returns a reference to the first match; assigning to a field of
  that reference mutates the element in place. \<open>upd_first P f xs\<close> is the array
  after \<open>f\<close> has been applied to the first element satisfying \<open>P\<close>.
\<close>

fun upd_first :: "('a \<Rightarrow> bool) \<Rightarrow> ('a \<Rightarrow> 'a) \<Rightarrow> 'a list \<Rightarrow> 'a list" where
  "upd_first P f [] = []"
| "upd_first P f (x # xs) = (if P x then f x # xs else x # upd_first P f xs)"

text \<open>The array without its first element satisfying \<open>P\<close> (a reference for \<open>splice1\<close>).\<close>

fun remove_first :: "('a \<Rightarrow> bool) \<Rightarrow> 'a list \<Rightarrow> 'a list" where
  "remove_first P [] = []"
| "remove_first P (x # xs) = (if P x then xs else x # remove_first P xs)"

text \<open>JavaScript's \<open>s || d\<close> on an optional string: \<open>d\<close> when \<open>s\<close> is undefined or empty.\<close>

fun js_or :: "string option \<Rightarrow> string \<Rightarrow> string" where
  "js_or None d = d"
| "js_or (Some v) d = (if v = [] then d else v)"

text \<open>
  One property of \<open>Object.assign(target, updates)\<close>: the value of \<open>updates\<close>
  when it has the key (\<open>Some\<close>), the target's own value otherwise.
\<close>

fun assign_opt :: "'a option \<Rightarrow> 'a \<Rightarrow> 'a" where
  "assign_opt None v = v"
| "assign_opt (Some v') v = v'"

declare findIndex.simps [js_simps] upd_first.simps [js_simps]
  remove_first.simps [js_simps] js_or.simps [js_simps] assign_opt.simps [js_simps]

subsection \<open>Lemmas on the builtins\<close>

lemma findIndex_ge: "-1 \<le> findIndex P xs"
  by (induction xs) (auto simp: Let_def)

lemma findIndex_eq_neg_iff [simp]: "findIndex P xs = -1 \<longleftrightarrow> (\<forall>x \<in> set xs. \<not> P x)"
proof (induction xs)
  case Nil
  then show ?case by simp
next
  case (Cons x xs)
  have "findIndex P xs \<noteq> -1 \<Longrightarrow> findIndex P xs + 1 \<noteq> -1"
    using findIndex_ge [of P xs] by arith
  with Cons show ?case by (auto simp: Let_def)
qed

lemma splice1_findIndex:
  assumes "-1 < findIndex P xs"
  shows "splice1 xs (nat (findIndex P xs)) = remove_first P xs"
  using assms
proof (induction xs)
  case Nil
  then show ?case by simp
next
  case (Cons x xs)
  show ?case
  proof (cases "P x")
    case True
    then show ?thesis by (simp add: splice1_def)
  next
    case False
    with Cons.prems have ne: "findIndex P xs \<noteq> -1"
      by (auto simp: Let_def split: if_splits)
    with findIndex_ge [of P xs] have "-1 < findIndex P xs" by arith
    with Cons.IH have IH: "splice1 xs (nat (findIndex P xs)) = remove_first P xs" .
    have "nat (findIndex P xs + 1) = Suc (nat (findIndex P xs))"
      using \<open>-1 < findIndex P xs\<close> by arith
    moreover from False ne have "findIndex P (x # xs) = findIndex P xs + 1"
      by (simp add: Let_def del: findIndex_eq_neg_iff)
    ultimately show ?thesis using False IH by (simp add: splice1_def)
  qed
qed

lemma set_remove_first: "set (remove_first P xs) \<subseteq> set xs"
  by (induction xs) auto

lemma remove_first_no_match [simp]: "\<forall>x \<in> set xs. \<not> P x \<Longrightarrow> remove_first P xs = xs"
  by (induction xs) auto

lemma distinct_map_remove_first:
  "distinct (map g xs) \<Longrightarrow> distinct (map g (remove_first P xs))"
  by (induction xs) (auto dest: set_remove_first [THEN subsetD])

lemma in_set_remove_first:
  "x \<in> set xs \<Longrightarrow> \<not> P x \<Longrightarrow> x \<in> set (remove_first P xs)"
  by (induction xs) auto

lemma key_in_remove_first:
  "k' \<in> g ` set xs \<Longrightarrow> k' \<noteq> k \<Longrightarrow> k' \<in> g ` set (remove_first (\<lambda>x. g x = k) xs)"
  by (induction xs) auto

lemma remove_first_key_gone:
  "distinct (map g xs) \<Longrightarrow> k \<notin> g ` set (remove_first (\<lambda>x. g x = k) xs)"
  by (induction xs) auto

lemma map_upd_first:
  "(\<And>x. P x \<Longrightarrow> g (f x) = g x) \<Longrightarrow> map g (upd_first P f xs) = map g xs"
  by (induction xs) auto

lemma length_upd_first [simp]: "length (upd_first P f xs) = length xs"
  by (induction xs) auto

lemma upd_first_no_match [simp]: "\<forall>x \<in> set xs. \<not> P x \<Longrightarrow> upd_first P f xs = xs"
  by (induction xs) auto

lemma set_upd_first:
  "set (upd_first P f xs) \<subseteq> set xs \<union> f ` {x \<in> set xs. P x}"
  by (induction xs) auto

lemma in_set_upd_first:
  "y \<in> set (upd_first P f xs) \<Longrightarrow> y \<in> set xs \<or> (\<exists>x \<in> set xs. P x \<and> y = f x)"
  by (induction xs) (auto split: if_splits)

lemma find_upd_first:
  "(\<And>x. P x \<Longrightarrow> P (f x)) \<Longrightarrow> List.find P (upd_first P f xs) = map_option f (List.find P xs)"
  by (induction xs) auto

lemma find_SomeD: "List.find P xs = Some x \<Longrightarrow> x \<in> set xs \<and> P x"
  by (induction xs) (auto split: if_splits)

lemma find_None_ball [simp]: "List.find P xs = None \<longleftrightarrow> (\<forall>x \<in> set xs. \<not> P x)"
  by (induction xs) auto

lemma find_map_list: "List.find P (map f xs) = map_option f (List.find (P \<circ> f) xs)"
  by (induction xs) auto

lemma upd_first_append:
  "\<forall>x \<in> set pre. \<not> P x \<Longrightarrow> upd_first P f (pre @ xs) = pre @ upd_first P f xs"
  by (induction pre) auto

lemma find_distinct_key:
  "distinct (map g xs) \<Longrightarrow> x \<in> set xs \<Longrightarrow> List.find (\<lambda>y. g y = g x) xs = Some x"
  by (induction xs) (auto simp: image_iff)

lemma length_filter_upd_first:
  assumes "\<And>x. P x \<Longrightarrow> Q (f x) = Q x"
  shows "length (filter Q (upd_first P f xs)) = length (filter Q xs)"
  using assms by (induction xs) auto

subsection \<open>Arrays as keyed tables\<close>

text \<open>
  An array of objects read as a table from a key to the first object with that
  key, which is what \<open>find\<close> by key returns.
\<close>

definition key_table :: "('a \<Rightarrow> 'k) \<Rightarrow> 'a list \<Rightarrow> 'k \<rightharpoonup> 'a" where
  "key_table g xs = map_of (map (\<lambda>x. (g x, x)) xs)"

lemma key_table_find: "key_table g xs k = List.find (\<lambda>x. g x = k) xs"
  by (induction xs) (auto simp: key_table_def)

lemma dom_key_table: "dom (key_table g xs) = g ` set xs"
  by (simp add: key_table_def dom_map_of_conv_image_fst image_image)

lemma key_table_upd_first:
  assumes "\<And>x. g (f x) = g x"
  shows "key_table g (upd_first (\<lambda>x. g x = k) f xs) =
           (key_table g xs)(k := map_option f (key_table g xs k))"
  using assms by (induction xs) (auto simp: key_table_def fun_eq_iff)

lemma key_table_remove_first:
  "distinct (map g xs) \<Longrightarrow>
   key_table g (remove_first (\<lambda>x. g x = k) xs) = (key_table g xs)(k := None)"
  by (induction xs) (auto simp: key_table_def fun_eq_iff dom_map_of_conv_image_fst image_image
                           intro!: map_of_eq_None_iff [THEN iffD2])

lemma key_table_snoc:
  "g x \<notin> g ` set xs \<Longrightarrow> key_table g (xs @ [x]) = (key_table g xs)(g x \<mapsto> x)"
  by (induction xs) (auto simp: key_table_def fun_eq_iff)

lemma key_table_map:
  assumes "\<And>x. g (h x) = g x"
  shows "key_table g (map h xs) = (\<lambda>k. map_option h (key_table g xs k))"
  using assms by (induction xs) (auto simp: key_table_def fun_eq_iff)

end
