(* ===== verification/Decimal.thy ===== *)
theory Decimal
  imports Prelude
begin

text \<open>
  Decimal printing of a non-negative integer, as a JavaScript template literal
  prints \<open>Date.now()\<close> inside \<open>`backend_${Date.now()}`\<close>: the shortest
  decimal numeral, no sign, no leading zeros (exact for every millisecond count
  below \<open>10^21\<close>). A reading function \<open>parse_nat\<close> inverts it; the round trip
  gives injectivity, from which the uniqueness of generated instance ids follows.
\<close>

definition digit_char :: "nat \<Rightarrow> char" where
  "digit_char d = char_of (48 + d)"

fun nat_str :: "nat \<Rightarrow> string" where
  "nat_str n = (if n < 10 then [digit_char n] else nat_str (n div 10) @ [digit_char (n mod 10)])"

declare nat_str.simps [simp del]

definition is_digit :: "char \<Rightarrow> bool" where
  "is_digit c \<longleftrightarrow> 48 \<le> (of_char c :: nat) \<and> (of_char c :: nat) < 58"

definition digit_val :: "char \<Rightarrow> nat" where
  "digit_val c = of_char c - 48"

fun parse_digits :: "nat \<Rightarrow> string \<Rightarrow> nat" where
  "parse_digits acc [] = acc"
| "parse_digits acc (c # cs) = parse_digits (10 * acc + digit_val c) cs"

definition parse_nat :: "string \<Rightarrow> nat option" where
  "parse_nat s = (if s \<noteq> [] \<and> list_all is_digit s then Some (parse_digits 0 s) else None)"

lemma digit_char_props:
  assumes "d < 10"
  shows "is_digit (digit_char d)" and "digit_val (digit_char d) = d"
  using assms by (simp_all add: digit_char_def is_digit_def digit_val_def)

lemma parse_digits_append:
  "parse_digits acc (xs @ ys) = parse_digits (parse_digits acc xs) ys"
  by (induction xs arbitrary: acc) auto

lemma nat_str_digits: "list_all is_digit (nat_str n) \<and> nat_str n \<noteq> []"
proof (induction n rule: nat_str.induct)
  case (1 n)
  then show ?case
    by (simp add: nat_str.simps [of n] digit_char_props)
qed

lemma parse_digits_nat_str: "parse_digits acc (nat_str n) = 10 ^ length (nat_str n) * acc + n"
proof (induction n arbitrary: acc rule: nat_str.induct)
  case (1 n)
  show ?case
  proof (cases "n < 10")
    case True
    then show ?thesis by (simp add: nat_str.simps [of n] digit_char_props)
  next
    case False
    then have eq: "nat_str n = nat_str (n div 10) @ [digit_char (n mod 10)]"
      by (subst nat_str.simps) simp
    have "parse_digits acc (nat_str n)
        = 10 * (10 ^ length (nat_str (n div 10)) * acc + n div 10) + n mod 10"
      using "1" False by (simp add: eq parse_digits_append digit_char_props)
    also have "\<dots> = 10 ^ length (nat_str n) * acc + n"
      by (simp add: eq algebra_simps)
    finally show ?thesis .
  qed
qed

lemma parse_nat_str: "parse_nat (nat_str n) = Some n"
  using nat_str_digits [of n] by (simp add: parse_nat_def parse_digits_nat_str)

lemma nat_str_inj: "nat_str m = nat_str n \<longleftrightarrow> m = n"
  by (metis option.inject parse_nat_str)

end
