(* ===== verification/Backend.thy ===== *)
theory Backend
  imports Decimal
begin

text \<open>
  The registry and the active selector of \<open>src/page/src/stores/backend.js\<close>:
  the instance record, the store's two refs (\<open>backends\<close>, \<open>activeBackendId\<close>),
  the computed \<open>activeBackend\<close> and \<open>connectedBackendsCount\<close>, and the
  operations \<open>addBackend\<close>, \<open>removeBackend\<close>, \<open>updateBackend\<close> and
  \<open>switchBackend\<close>. Each operation takes the store and returns the new one;
  a \<open>throw\<close> is an \<open>Inl\<close> of \<open>js_error\<close>. The registry invariant
  \<open>registry_inv\<close> and the lemmas that each operation keeps it close the theory.
\<close>

subsection \<open>Data\<close>

text \<open>
  An instance object (lines 7--16, 34--43). \<open>id\<close> is \<open>bid\<close> (\<open>id\<close> is HOL's
  identity). \<open>baseUrl\<close> is optional because \<open>addBackend\<close> copies
  \<open>backend.baseUrl\<close> unchecked and it may be \<open>undefined\<close>. \<open>lastConnected\<close>
  holds the millisecond time that \<open>new Date().toISOString()\<close> renders, \<open>None\<close>
  for \<open>null\<close>.
\<close>

record backend =
  bid :: string
  name :: string
  baseUrl :: "string option"
  password :: string
  isActive :: bool
  isConnected :: bool
  lastConnected :: "nat option"
  description :: string

text \<open>The store's state: the two refs of lines 6 and 20.\<close>

record store =
  backends :: "backend list"
  activeBackendId :: string

text \<open>String constants of the source, as their UTF-8 bytes.\<close>

definition utf8 :: "nat list \<Rightarrow> string" where
  "utf8 bs = map char_of bs"

definition local_name :: string where
  "local_name = utf8 [230, 156, 172, 229, 156, 176, 229, 174, 158, 228, 190, 139]"

definition local_description :: string where
  "local_description = utf8 [229, 189, 147, 229, 137, 141, 233, 161, 181, 233, 157, 162,
     231, 154, 132, 229, 144, 142, 231, 171, 175, 229, 174, 158, 228, 190, 139]"

definition unnamed_name :: string where
  "unnamed_name = utf8 [230, 156, 170, 229, 145, 189, 229, 144, 141, 229, 174, 158, 228, 190, 139]"

text \<open>
  The reserved local instance, written out three times in the source (lines 7--16,
  213--222, 241--250) with \<open>baseUrl = window.location.origin\<close>; only
  \<open>isActive\<close> differs between the copies.
\<close>

definition local_backend :: "string \<Rightarrow> bool \<Rightarrow> backend" where
  "local_backend origin active =
     \<lparr>bid = ''local'', name = local_name, baseUrl = Some origin, password = [],
      isActive = active, isConnected = False, lastConnected = None,
      description = local_description\<rparr>"

definition init_store :: "string \<Rightarrow> store" where
  "init_store origin = \<lparr>backends = [local_backend origin True], activeBackendId = ''local''\<rparr>"

subsection \<open>Computed values\<close>

definition activeBackend :: "store \<Rightarrow> backend option" where
  "activeBackend s = List.find (\<lambda>b. bid b = activeBackendId s) (backends s)"

definition connectedBackendsCount :: "store \<Rightarrow> nat" where
  "connectedBackendsCount s = length (filter isConnected (backends s))"

subsection \<open>Registry operations\<close>

text \<open>
  The partial descriptor passed to \<open>addBackend\<close>: a field is \<open>None\<close> when the
  caller's object lacks it.
\<close>

record descriptor =
  d_name :: "string option"
  d_baseUrl :: "string option"
  d_password :: "string option"
  d_description :: "string option"

definition new_backend_id :: "nat \<Rightarrow> string" where
  "new_backend_id now = ''backend_'' @ nat_str now"

text \<open>\<open>now\<close> is the value of \<open>Date.now()\<close> at the call.\<close>

definition addBackend :: "nat \<Rightarrow> descriptor \<Rightarrow> store \<Rightarrow> backend \<times> store" where
  "addBackend now d s =
     (let newBackend =
        \<lparr>bid = new_backend_id now, name = js_or (d_name d) unnamed_name,
         baseUrl = d_baseUrl d, password = js_or (d_password d) [],
         isActive = False, isConnected = False, lastConnected = None,
         description = js_or (d_description d) []\<rparr>
      in (newBackend, s\<lparr>backends := backends s @ [newBackend]\<rparr>))"

definition removeBackend :: "string \<Rightarrow> store \<Rightarrow> js_error + store" where
  "removeBackend backendId s =
     (if backendId = ''local'' then Inl ProtectedInstanceError
      else
        (let index = findIndex (\<lambda>b. bid b = backendId) (backends s)
         in if -1 < index
            then Inr (s\<lparr>backends := splice1 (backends s) (nat index),
                       activeBackendId :=
                         (if activeBackendId s = backendId then ''local'' else activeBackendId s)\<rparr>)
            else Inr s))"

text \<open>
  The \<open>updates\<close> object given to \<open>Object.assign\<close>: every own key it has is
  written, \<open>id\<close> and \<open>isActive\<close> included.
\<close>

record patch =
  p_id :: "string option"
  p_name :: "string option"
  p_baseUrl :: "string option option"
  p_password :: "string option"
  p_isActive :: "bool option"
  p_isConnected :: "bool option"
  p_lastConnected :: "nat option option"
  p_description :: "string option"

definition object_assign :: "backend \<Rightarrow> patch \<Rightarrow> backend" where
  "object_assign b u =
     b\<lparr>bid := assign_opt (p_id u) (bid b), name := assign_opt (p_name u) (name b),
       baseUrl := assign_opt (p_baseUrl u) (baseUrl b),
       password := assign_opt (p_password u) (password b),
       isActive := assign_opt (p_isActive u) (isActive b),
       isConnected := assign_opt (p_isConnected u) (isConnected b),
       lastConnected := assign_opt (p_lastConnected u) (lastConnected b),
       description := assign_opt (p_description u) (description b)\<rparr>"

definition updateBackend :: "string \<Rightarrow> patch \<Rightarrow> store \<Rightarrow> store" where
  "updateBackend backendId updates s =
     s\<lparr>backends := upd_first (\<lambda>b. bid b = backendId) (\<lambda>b. object_assign b updates) (backends s)\<rparr>"

subsection \<open>Active selector\<close>

text \<open>
  \<open>switchBackend\<close> finds the target, clears every \<open>isActive\<close>, then sets the
  flag on the object it found (the first with that id) and records the id.
\<close>

definition switchBackend :: "string \<Rightarrow> store \<Rightarrow> bool \<times> store" where
  "switchBackend backendId s =
     (case List.find (\<lambda>b. bid b = backendId) (backends s) of
        None \<Rightarrow> (False, s)
      | Some _ \<Rightarrow>
          (True, s\<lparr>backends := upd_first (\<lambda>b. bid b = backendId) (\<lambda>b. b\<lparr>isActive := True\<rparr>)
                                 (map (\<lambda>b. b\<lparr>isActive := False\<rparr>) (backends s)),
                   activeBackendId := backendId\<rparr>))"

subsection \<open>The registry invariant\<close>

definition ids :: "store \<Rightarrow> string list" where
  "ids s = map bid (backends s)"

definition active_flags :: "store \<Rightarrow> nat" where
  "active_flags s = length (filter isActive (backends s))"

text \<open>
  What the store keeps true between its fields: the reserved instance is present,
  ids are unique, \<open>activeBackendId\<close> names an instance, and an instance that
  carries the \<open>isActive\<close> flag is the one \<open>activeBackendId\<close> names. Together
  with unique ids the last conjunct means at most one flag, not exactly one:
  \<open>removeBackend\<close> of the active instance leaves none.
\<close>

definition registry_inv :: "store \<Rightarrow> bool" where
  "registry_inv s \<longleftrightarrow>
     ''local'' \<in> set (ids s) \<and> distinct (ids s) \<and> activeBackendId s \<in> set (ids s) \<and>
     list_all (\<lambda>b. isActive b \<longrightarrow> bid b = activeBackendId s) (backends s)"

text \<open>An \<open>updates\<close> object that writes neither \<open>id\<close> nor \<open>isActive\<close>.\<close>

definition patch_keeps_identity :: "patch \<Rightarrow> bool" where
  "patch_keeps_identity u \<longleftrightarrow> p_id u = None \<and> p_isActive u = None"

text \<open>
  The flags are canonical when exactly the instance \<open>activeBackendId\<close> names
  carries \<open>isActive\<close>.
\<close>

definition flags_canonical :: "store \<Rightarrow> bool" where
  "flags_canonical s \<longleftrightarrow> list_all (\<lambda>b. isActive b = (bid b = activeBackendId s)) (backends s)"

text \<open>The empty \<open>updates\<close> object \<open>{}\<close>.\<close>

definition no_updates :: patch where
  "no_updates = \<lparr>p_id = None, p_name = None, p_baseUrl = None, p_password = None,
                  p_isActive = None, p_isConnected = None, p_lastConnected = None,
                  p_description = None\<rparr>"

lemmas registry_defs = registry_inv_def ids_def active_flags_def list_all_iff

lemma registry_inv_init: "registry_inv (init_store origin)"
  by (simp add: registry_defs init_store_def local_backend_def)

lemma addBackend_store:
  "backends (snd (addBackend now d s)) = backends s @ [fst (addBackend now d s)]"
  "activeBackendId (snd (addBackend now d s)) = activeBackendId s"
  "bid (fst (addBackend now d s)) = new_backend_id now"
  "\<not> isActive (fst (addBackend now d s))"
  by (simp_all add: addBackend_def Let_def)

lemma addBackend_inv:
  assumes "registry_inv s" and "new_backend_id now \<notin> set (ids s)"
  shows "registry_inv (snd (addBackend now d s))"
  using assms by (auto simp: registry_defs addBackend_store)

lemma removeBackend_local: "removeBackend ''local'' s = Inl ProtectedInstanceError"
  by (simp add: removeBackend_def)

lemma removeBackend_eq:
  assumes "k \<noteq> ''local''"
  shows "removeBackend k s =
    Inr (s\<lparr>backends := remove_first (\<lambda>b. bid b = k) (backends s),
          activeBackendId :=
            (if activeBackendId s = k \<and> k \<in> set (ids s) then ''local'' else activeBackendId s)\<rparr>)"
proof (cases "-1 < findIndex (\<lambda>b. bid b = k) (backends s)")
  case True
  have "k \<in> set (ids s)"
  proof (rule ccontr)
    assume "k \<notin> set (ids s)"
    then have "findIndex (\<lambda>b. bid b = k) (backends s) = -1"
      by (auto simp: ids_def)
    with True show False by simp
  qed
  with True assms show ?thesis
    by (simp add: removeBackend_def splice1_findIndex)
next
  case False
  then have "findIndex (\<lambda>b. bid b = k) (backends s) = -1"
    using findIndex_ge [of "\<lambda>b. bid b = k" "backends s"] by arith
  then have "k \<notin> set (ids s)" and "\<forall>b \<in> set (backends s). bid b \<noteq> k"
    by (auto simp: ids_def)
  with False assms show ?thesis
    by (simp add: removeBackend_def)
qed

lemma removeBackend_inv:
  assumes inv: "registry_inv s" and ok: "removeBackend k s = Inr s'"
  shows "registry_inv s'"
proof -
  have k: "k \<noteq> ''local''"
    using ok by (auto simp: removeBackend_local)
  let ?P = "\<lambda>b. bid b = k"
  from ok k have bs: "backends s' = remove_first ?P (backends s)"
    and act: "activeBackendId s' =
       (if activeBackendId s = k \<and> k \<in> set (ids s) then ''local'' else activeBackendId s)"
    by (auto simp: removeBackend_eq)
  from inv have loc: "''local'' \<in> bid ` set (backends s)"
    and dis: "distinct (map bid (backends s))"
    and act_in: "activeBackendId s \<in> bid ` set (backends s)"
    and flags: "\<forall>b \<in> set (backends s). isActive b \<longrightarrow> bid b = activeBackendId s"
    by (auto simp: registry_defs)
  have loc': "''local'' \<in> bid ` set (backends s')"
    using key_in_remove_first [OF loc] k bs by simp
  have dis': "distinct (map bid (backends s'))"
    using bs dis by (simp add: distinct_map_remove_first)
  have gone: "k \<notin> bid ` set (backends s')"
    using bs dis by (simp add: remove_first_key_gone)
  have act_in': "activeBackendId s' \<in> bid ` set (backends s')"
    using act act_in loc' key_in_remove_first [of "activeBackendId s" bid "backends s" k] bs
    by (auto simp: ids_def)
  have "\<forall>b \<in> set (backends s'). isActive b \<longrightarrow> bid b = activeBackendId s'"
  proof
    fix b assume b: "b \<in> set (backends s')"
    with bs have "b \<in> set (backends s)" using set_remove_first by fastforce
    show "isActive b \<longrightarrow> bid b = activeBackendId s'"
    proof
      assume "isActive b"
      with flags \<open>b \<in> set (backends s)\<close> have "bid b = activeBackendId s" by blast
      moreover from b gone have "bid b \<noteq> k" by blast
      ultimately show "bid b = activeBackendId s'" using act by simp
    qed
  qed
  with loc' dis' act_in' show ?thesis
    by (simp add: registry_defs)
qed

lemma object_assign_keeps:
  "patch_keeps_identity u \<Longrightarrow> bid (object_assign b u) = bid b \<and> isActive (object_assign b u) = isActive b"
  by (simp add: patch_keeps_identity_def object_assign_def)

lemma ids_updateBackend:
  "patch_keeps_identity u \<Longrightarrow> ids (updateBackend k u s) = ids s"
  by (simp add: ids_def updateBackend_def map_upd_first object_assign_keeps)

lemma updateBackend_inv:
  assumes inv: "registry_inv s" and u: "patch_keeps_identity u"
  shows "registry_inv (updateBackend k u s)"
proof -
  let ?f = "\<lambda>b. object_assign b u"
  have "\<forall>b \<in> set (backends (updateBackend k u s)). isActive b \<longrightarrow> bid b = activeBackendId s"
  proof
    fix b assume "b \<in> set (backends (updateBackend k u s))"
    then have "b \<in> set (backends s) \<or> (\<exists>b0 \<in> set (backends s). b = ?f b0)"
      using set_upd_first [of "\<lambda>b. bid b = k" ?f "backends s"] by (auto simp: updateBackend_def)
    with inv u show "isActive b \<longrightarrow> bid b = activeBackendId s"
      by (auto simp: registry_defs object_assign_keeps)
  qed
  moreover have "activeBackendId (updateBackend k u s) = activeBackendId s"
    by (simp add: updateBackend_def)
  moreover have "ids (updateBackend k u s) = ids s"
    using u by (rule ids_updateBackend)
  ultimately show ?thesis
    using inv unfolding registry_inv_def list_all_iff by simp
qed

lemma find_updateBackend:
  "p_id u = None \<Longrightarrow> List.find (\<lambda>b. bid b = k) (backends (updateBackend k u s)) =
     map_option (\<lambda>b. object_assign b u) (List.find (\<lambda>b. bid b = k) (backends s))"
  by (simp add: updateBackend_def find_upd_first object_assign_def)

lemma switchBackend_unknown:
  assumes "k \<notin> set (ids s)"
  shows "switchBackend k s = (False, s)"
proof -
  from assms have "List.find (\<lambda>b. bid b = k) (backends s) = None"
    by (auto simp: ids_def)
  then show ?thesis by (simp add: switchBackend_def del: find_None_ball)
qed

lemma switchBackend_known:
  "k \<in> set (ids s) \<Longrightarrow> switchBackend k s =
     (True, s\<lparr>backends := upd_first (\<lambda>b. bid b = k) (\<lambda>b. b\<lparr>isActive := True\<rparr>)
                              (map (\<lambda>b. b\<lparr>isActive := False\<rparr>) (backends s)),
              activeBackendId := k\<rparr>)"
  by (cases "List.find (\<lambda>b. bid b = k) (backends s)") (auto simp: switchBackend_def ids_def)

lemma flags_set_one:
  "length (filter isActive (upd_first (\<lambda>b. bid b = k) (\<lambda>b. b\<lparr>isActive := True\<rparr>)
      (map (\<lambda>b. b\<lparr>isActive := False\<rparr>) xs))) = (if k \<in> bid ` set xs then 1 else 0)"
  by (induction xs) (auto simp: filter_empty_conv)

lemma flags_set_target:
  "b \<in> set (upd_first (\<lambda>b. bid b = k) (\<lambda>b. b\<lparr>isActive := True\<rparr>)
      (map (\<lambda>b. b\<lparr>isActive := False\<rparr>) xs)) \<Longrightarrow> isActive b \<Longrightarrow> bid b = k"
  by (induction xs) (auto split: if_splits)

lemma ids_flags_set:
  "map bid (upd_first (\<lambda>b. bid b = k) (\<lambda>b. b\<lparr>isActive := True\<rparr>)
      (map (\<lambda>b. b\<lparr>isActive := False\<rparr>) xs)) = map bid xs"
  by (induction xs) auto

lemma switchBackend_inv:
  assumes "registry_inv s"
  shows "registry_inv (snd (switchBackend k s))"
proof (cases "k \<in> set (ids s)")
  case True
  with assms show ?thesis
    by (auto simp: switchBackend_known registry_inv_def ids_def ids_flags_set list_all_iff
             dest: flags_set_target)
next
  case False
  with assms show ?thesis by (simp add: switchBackend_unknown)
qed

lemma activeBackend_SomeD:
  "activeBackend s = Some b \<Longrightarrow> b \<in> set (backends s) \<and> bid b = activeBackendId s"
  by (auto simp: activeBackend_def dest: find_SomeD)

lemma activeBackend_exists:
  "activeBackendId s \<in> set (ids s) \<Longrightarrow> \<exists>b. activeBackend s = Some b"
  by (cases "activeBackend s") (auto simp: activeBackend_def ids_def)

lemma ids_switchBackend [simp]: "ids (snd (switchBackend k s)) = ids s"
  by (cases "k \<in> set (ids s)") (simp_all add: switchBackend_known switchBackend_unknown,
      simp add: ids_def ids_flags_set)

lemma flag_triv [simp]: "b\<lparr>isActive := v\<rparr> = b \<longleftrightarrow> isActive b = v"
  by (cases b) auto

lemma clear_flags_id:
  "\<forall>b \<in> set ys. \<not> isActive b \<Longrightarrow> map (\<lambda>b. b\<lparr>isActive := False\<rparr>) ys = ys"
  by (induction ys) auto

lemma flags_set_canonical:
  "\<forall>b \<in> set xs. isActive b = (bid b = k) \<Longrightarrow> distinct (map bid xs) \<Longrightarrow>
   upd_first (\<lambda>b. bid b = k) (\<lambda>b. b\<lparr>isActive := True\<rparr>) (map (\<lambda>b. b\<lparr>isActive := False\<rparr>) xs) = xs"
proof (induction xs)
  case (Cons a xs)
  show ?case
  proof (cases "bid a = k")
    case True
    with Cons.prems have "\<forall>b \<in> set xs. \<not> isActive b"
      by (auto simp: image_iff)
    with True Cons.prems show ?thesis by (simp add: clear_flags_id)
  next
    case False
    with Cons.prems Cons.IH show ?thesis by simp
  qed
qed simp

lemma switchBackend_canonical:
  assumes inv: "registry_inv s" and can: "flags_canonical s"
  shows "switchBackend (activeBackendId s) s = (True, s)"
proof -
  have c: "\<forall>b \<in> set (backends s). isActive b = (bid b = activeBackendId s)"
    using can by (simp add: flags_canonical_def list_all_iff)
  have d: "distinct (map bid (backends s))" and k: "activeBackendId s \<in> set (ids s)"
    using inv by (simp_all add: registry_inv_def ids_def)
  have "upd_first (\<lambda>b. bid b = activeBackendId s) (\<lambda>b. b\<lparr>isActive := True\<rparr>)
          (map (\<lambda>b. b\<lparr>isActive := False\<rparr>) (backends s)) = backends s"
    using c d by (rule flags_set_canonical)
  then show ?thesis
    by (simp only: switchBackend_known [OF k]) simp
qed

lemma flags_set_exact:
  "distinct (map bid xs) \<Longrightarrow>
   b \<in> set (upd_first (\<lambda>b. bid b = k) (\<lambda>b. b\<lparr>isActive := True\<rparr>) (map (\<lambda>b. b\<lparr>isActive := False\<rparr>) xs)) \<Longrightarrow>
   isActive b = (bid b = k)"
  by (induction xs) (auto split: if_splits simp: image_iff)

lemma switchBackend_flags_canonical:
  assumes inv: "registry_inv s" and k: "k \<in> set (ids s)"
  shows "flags_canonical (snd (switchBackend k s))"
proof -
  have d: "distinct (map bid (backends s))"
    using inv by (simp add: registry_inv_def ids_def)
  show ?thesis
    unfolding switchBackend_known [OF k] flags_canonical_def list_all_iff
    using flags_set_exact [OF d] by simp
qed

section \<open>Properties of the registry and the selector\<close>

text \<open>
  C6. \<open>removeBackend\<close> fails exactly for the reserved id, with the protected-instance
  error; for every other id, present or not, it succeeds.
\<close>

theorem removeBackend_error_iff:
  "removeBackend k s = Inl e \<longleftrightarrow> k = ''local'' \<and> e = ProtectedInstanceError"
  by (cases "k = ''local''") (auto simp: removeBackend_local removeBackend_eq)

text \<open>
  C7. Switching to a registered id succeeds, records the id, and leaves exactly
  one instance flagged \<open>isActive\<close>, the first one with that id.
\<close>

theorem switchBackend_exact:
  assumes "k \<in> set (ids s)"
  shows "fst (switchBackend k s) \<and> activeBackendId (snd (switchBackend k s)) = k \<and>
         active_flags (snd (switchBackend k s)) = 1 \<and>
         (\<forall>b \<in> set (backends (snd (switchBackend k s))). isActive b \<longrightarrow> bid b = k)"
proof -
  have "k \<in> bid ` set (backends s)"
    using assms by (simp add: ids_def)
  then show ?thesis
    using assms
    by (auto simp: switchBackend_known active_flags_def flags_set_one dest: flags_set_target)
qed

theorem switchBackend_exact_witness:
  "fst (switchBackend ''local'' (init_store ''http://x'')) \<and>
   activeBackendId (snd (switchBackend ''local'' (init_store ''http://x''))) = ''local'' \<and>
   active_flags (snd (switchBackend ''local'' (init_store ''http://x''))) = 1"
proof -
  have "''local'' \<in> set (ids (init_store ''http://x''))"
    by (simp add: ids_def init_store_def local_backend_def)
  from switchBackend_exact [OF this] show ?thesis by simp
qed

text \<open>
  Switching to an id that is not registered reports failure and changes
  nothing: the previous selection and flags stay.
\<close>

theorem switchBackend_rejects_unknown:
  "k \<notin> set (ids s) \<Longrightarrow> switchBackend k s = (False, s)"
  by (rule switchBackend_unknown)

theorem switchBackend_rejects_unknown_witness:
  "switchBackend ''nope'' (init_store ''http://x'') = (False, init_store ''http://x'')"
  by (rule switchBackend_rejects_unknown) (simp add: ids_def init_store_def local_backend_def)

text \<open>
  C9. \<open>updateBackend\<close> with an \<open>updates\<close> object that does not write \<open>id\<close>
  merges it into the first instance with that id (\<open>Object.assign\<close>) and
  nothing else; an unknown id changes nothing.
\<close>

theorem updateBackend_merges:
  "p_id u = None \<Longrightarrow>
   List.find (\<lambda>b. bid b = k) (backends (updateBackend k u s)) =
     map_option (\<lambda>b. object_assign b u) (List.find (\<lambda>b. bid b = k) (backends s)) \<and>
   (k \<notin> set (ids s) \<longrightarrow> updateBackend k u s = s)"
proof -
  assume u: "p_id u = None"
  have "k \<notin> set (ids s) \<Longrightarrow> updateBackend k u s = s"
  proof -
    assume "k \<notin> set (ids s)"
    then have "\<forall>x \<in> set (backends s). bid x \<noteq> k"
      by (auto simp: ids_def)
    then show "updateBackend k u s = s"
      by (simp add: updateBackend_def)
  qed
  with u show ?thesis
    by (simp add: find_updateBackend)
qed

theorem updateBackend_merges_witness:
  "List.find (\<lambda>b. bid b = ''local'')
      (backends (updateBackend ''local'' (no_updates\<lparr>p_name := Some ''L''\<rparr>) (init_store ''http://x''))) =
     Some (object_assign (local_backend ''http://x'' True) (no_updates\<lparr>p_name := Some ''L''\<rparr>)) \<and>
   updateBackend ''zz'' (no_updates\<lparr>p_name := Some ''L''\<rparr>) (init_store ''http://x'') = init_store ''http://x''"
  using updateBackend_merges [of "no_updates\<lparr>p_name := Some ''L''\<rparr>" "''local''" "init_store ''http://x''"]
        updateBackend_merges [of "no_updates\<lparr>p_name := Some ''L''\<rparr>" "''zz''" "init_store ''http://x''"]
  by (simp add: no_updates_def init_store_def local_backend_def ids_def)

end
