(* ===== verification/Probe.thy ===== *)
theory Probe
  imports Backend
begin

text \<open>
  The connectivity probe of \<open>src/page/src/stores/backend.js\<close>:
  \<open>testBackendConnection\<close> (lines 92--119) and \<open>testAllConnections\<close>
  (lines 122--131), with the outbound HTTP they issue. The network is a function
  from the request to the outcome of \<open>fetch\<close>: a response with status and status
  text, or a rejected promise carrying \<open>error.message\<close>. A probe runs in two
  parts, as the async function does: the synchronous part up to \<open>await fetch\<close>
  (\<open>probe_start\<close>: look the id up, hold a reference to the first match, build
  the request) and the continuation (\<open>probe_settle\<close>: write \<open>isConnected\<close> and
  \<open>lastConnected\<close> on the held object and produce the result). No other store
  operation runs between the two parts here.
\<close>

subsection \<open>HTTP\<close>

type_synonym headers = "(string \<times> string) list"

record http_request =
  req_url :: string
  req_method :: string
  req_headers :: headers
  req_body :: "string option"

datatype fetch_outcome = Response nat string | NetworkError string

type_synonym network = "http_request \<Rightarrow> fetch_outcome"

text \<open>\<open>response.ok\<close>: the status is in 200--299.\<close>

definition response_ok :: "nat \<Rightarrow> bool" where
  "response_ok status \<longleftrightarrow> 200 \<le> status \<and> status \<le> 299"

text \<open>A template literal prints an undefined value as \<open>undefined\<close>.\<close>

fun js_str :: "string option \<Rightarrow> string" where
  "js_str None = ''undefined''"
| "js_str (Some v) = v"

subsection \<open>One probe\<close>

datatype probe_message = MsgConnected | MsgFailedStatus nat | MsgError string

record probe_result =
  success :: bool
  message :: probe_message

text \<open>
  The request of lines 99--105. The \<open>Authorization\<close> header is always sent: with
  \<open>Bearer\<close> and the password when the password is non-empty, empty otherwise.
\<close>

definition probe_request :: "backend \<Rightarrow> http_request" where
  "probe_request b =
     \<lparr>req_url = js_str (baseUrl b) @ ''/api/dashboard-data'', req_method = ''GET'',
      req_headers = [(''Authorization'', if password b \<noteq> [] then ''Bearer '' @ password b else []),
                     (''Content-Type'', ''application/json'')],
      req_body = None\<rparr>"

definition probe_start :: "network \<Rightarrow> store \<Rightarrow> string \<Rightarrow> (backend \<times> fetch_outcome) option" where
  "probe_start net s backendId =
     map_option (\<lambda>b. (b, net (probe_request b))) (List.find (\<lambda>b. bid b = backendId) (backends s))"

text \<open>Lines 107--118: the continuation after \<open>await fetch\<close>, at time \<open>now\<close>.\<close>

definition probe_settle :: "nat \<Rightarrow> fetch_outcome \<Rightarrow> backend \<Rightarrow> probe_result \<times> backend" where
  "probe_settle now outcome b =
     (case outcome of
        Response status _ \<Rightarrow>
          if response_ok status
          then (\<lparr>success = True, message = MsgConnected\<rparr>,
                b\<lparr>isConnected := True, lastConnected := Some now\<rparr>)
          else (\<lparr>success = False, message = MsgFailedStatus status\<rparr>, b\<lparr>isConnected := False\<rparr>)
      | NetworkError msg \<Rightarrow> (\<lparr>success = False, message = MsgError msg\<rparr>, b\<lparr>isConnected := False\<rparr>))"

text \<open>The settled probe writes to the object it holds: the first instance with the id.\<close>

definition probe_finish :: "nat \<Rightarrow> string \<Rightarrow> fetch_outcome \<Rightarrow> backend list \<Rightarrow> backend list" where
  "probe_finish now backendId outcome bs =
     upd_first (\<lambda>b. bid b = backendId) (\<lambda>b. snd (probe_settle now outcome b)) bs"

definition testBackendConnection ::
  "network \<Rightarrow> nat \<Rightarrow> string \<Rightarrow> store \<Rightarrow> js_error + (probe_result \<times> store)" where
  "testBackendConnection net now backendId s =
     (case probe_start net s backendId of
        None \<Rightarrow> Inl InstanceNotFoundError
      | Some (backend, outcome) \<Rightarrow>
          Inr (fst (probe_settle now outcome backend),
               s\<lparr>backends := probe_finish now backendId outcome (backends s)\<rparr>))"

subsection \<open>All probes\<close>

text \<open>
  One entry of \<open>Promise.allSettled\<close> mapped at lines 127--130:
  \<open>{backendId, ...result.value}\<close>; \<open>settled\<close> is \<open>None\<close> for a rejected probe,
  whose spread adds nothing.
\<close>

record tagged_result =
  backendId :: string
  settled :: "probe_result option"

text \<open>
  \<open>testAllConnections\<close> starts one probe per instance, in array order, each by
  the instance's id; the probes settle (here in array order) and write to the
  objects they hold; then each result is tagged with the id found at its index
  of the array as it is after the awaits.
\<close>

fun settle_all :: "nat \<Rightarrow> (string \<times> (backend \<times> fetch_outcome) option) list \<Rightarrow> backend list \<Rightarrow> backend list" where
  "settle_all now [] bs = bs"
| "settle_all now ((k, None) # ps) bs = settle_all now ps bs"
| "settle_all now ((k, Some (b, outcome)) # ps) bs = settle_all now ps (probe_finish now k outcome bs)"

definition testAllConnections :: "network \<Rightarrow> nat \<Rightarrow> store \<Rightarrow> tagged_result list \<times> store" where
  "testAllConnections net now s =
     (let ks = map bid (backends s);
          started = map (\<lambda>k. (k, probe_start net s k)) ks;
          s' = s\<lparr>backends := settle_all now started (backends s)\<rparr>;
          results = map (\<lambda>i. \<lparr>backendId = bid (backends s' ! i),
                              settled = map_option (\<lambda>(b, outcome). fst (probe_settle now outcome b))
                                        (snd (started ! i))\<rparr>) [0..<length ks]
      in (results, s'))"

subsection \<open>Frame and invariant\<close>

lemma probe_settle_frame [simp]:
  "bid (snd (probe_settle now outcome b)) = bid b"
  "isActive (snd (probe_settle now outcome b)) = isActive b"
  "baseUrl (snd (probe_settle now outcome b)) = baseUrl b"
  "password (snd (probe_settle now outcome b)) = password b"
  by (simp_all add: probe_settle_def split: fetch_outcome.splits)

lemma ids_probe_finish [simp]: "map bid (probe_finish now k outcome bs) = map bid bs"
  by (simp add: probe_finish_def map_upd_first)

lemma length_probe_finish [simp]: "length (probe_finish now k outcome bs) = length bs"
  by (simp add: probe_finish_def)

lemma flags_probe_finish:
  "b \<in> set (probe_finish now k outcome bs) \<Longrightarrow> \<exists>b0 \<in> set bs. bid b = bid b0 \<and> isActive b = isActive b0"
  using set_upd_first [of "\<lambda>b. bid b = k" "\<lambda>b. snd (probe_settle now outcome b)" bs]
  by (fastforce simp: probe_finish_def)

text \<open>Any rewrite of the instance array that keeps ids and flags keeps the invariant.\<close>

lemma registry_inv_frame:
  assumes "registry_inv s" and "map bid bs = map bid (backends s)"
    and "\<And>b. b \<in> set bs \<Longrightarrow> \<exists>b0 \<in> set (backends s). bid b = bid b0 \<and> isActive b = isActive b0"
  shows "registry_inv (s\<lparr>backends := bs\<rparr>)"
proof -
  have "\<forall>b \<in> set bs. isActive b \<longrightarrow> bid b = activeBackendId s"
    using assms by (fastforce simp: registry_defs)
  with assms show ?thesis
    by (simp add: registry_defs)
qed

lemma probe_finish_inv:
  "registry_inv s \<Longrightarrow> registry_inv (s\<lparr>backends := probe_finish now k outcome (backends s)\<rparr>)"
  by (rule registry_inv_frame) (auto dest: flags_probe_finish)

lemma settle_all_frame:
  "map bid (settle_all now ps bs) = map bid bs \<and>
   (\<forall>b \<in> set (settle_all now ps bs). \<exists>b0 \<in> set bs. bid b = bid b0 \<and> isActive b = isActive b0)"
proof (induction now ps bs rule: settle_all.induct)
  case (3 now k b outcome ps bs)
  then show ?case by (fastforce dest: flags_probe_finish)
qed auto

lemma testBackendConnection_unknown:
  assumes "k \<notin> set (ids s)"
  shows "testBackendConnection net now k s = Inl InstanceNotFoundError"
proof -
  from assms have "List.find (\<lambda>b. bid b = k) (backends s) = None"
    by (auto simp: ids_def)
  then show ?thesis
    by (simp add: testBackendConnection_def probe_start_def del: find_None_ball)
qed

lemma testBackendConnection_found:
  assumes "List.find (\<lambda>b. bid b = k) (backends s) = Some b"
  shows "testBackendConnection net now k s =
    Inr (fst (probe_settle now (net (probe_request b)) b),
         s\<lparr>backends := probe_finish now k (net (probe_request b)) (backends s)\<rparr>)"
  using assms by (simp add: testBackendConnection_def probe_start_def)

lemma find_probe_finish:
  "List.find (\<lambda>b. bid b = k) (probe_finish now k outcome bs) =
     map_option (\<lambda>b. snd (probe_settle now outcome b)) (List.find (\<lambda>b. bid b = k) bs)"
  by (simp add: probe_finish_def find_upd_first)

lemma testBackendConnection_inv:
  "registry_inv s \<Longrightarrow> testBackendConnection net now k s = Inr (r, s') \<Longrightarrow> registry_inv s'"
  by (cases "List.find (\<lambda>b. bid b = k) (backends s)")
     (auto simp: testBackendConnection_found testBackendConnection_def probe_start_def
           intro: probe_finish_inv)

lemma ids_testBackendConnection:
  "testBackendConnection net now k s = Inr (r, s') \<Longrightarrow> ids s' = ids s"
  by (auto simp: testBackendConnection_def probe_start_def ids_def split: option.splits)

subsection \<open>All probes\<close>

lemma testAllConnections_store:
  "snd (testAllConnections net now s) =
     s\<lparr>backends := settle_all now (map (\<lambda>k. (k, probe_start net s k)) (ids s)) (backends s)\<rparr>"
  by (simp add: testAllConnections_def Let_def ids_def)

lemma ids_testAllConnections [simp]: "ids (snd (testAllConnections net now s)) = ids s"
  using settle_all_frame by (simp add: testAllConnections_store ids_def)

lemma testAllConnections_inv:
  "registry_inv s \<Longrightarrow> registry_inv (snd (testAllConnections net now s))"
  unfolding testAllConnections_store using settle_all_frame
  by (intro registry_inv_frame) blast+

lemma probe_start_found:
  "b \<in> set (backends s) \<Longrightarrow> \<exists>b' outcome. probe_start net s (bid b) = Some (b', outcome)"
  by (cases "List.find (\<lambda>b'. bid b' = bid b) (backends s)") (auto simp: probe_start_def)

lemma probe_start_distinct:
  "distinct (ids s) \<Longrightarrow> b \<in> set (backends s) \<Longrightarrow>
   probe_start net s (bid b) = Some (b, net (probe_request b))"
  by (simp add: probe_start_def ids_def find_distinct_key)

text \<open>With unique ids the probes write to distinct objects, each to its own.\<close>

lemma settle_all_distinct:
  "distinct (map bid (pre @ ys)) \<Longrightarrow>
   settle_all now (map (\<lambda>b. (bid b, Some (b, g b))) ys) (pre @ ys) =
     pre @ map (\<lambda>b. snd (probe_settle now (g b) b)) ys"
proof (induction ys arbitrary: pre)
  case Nil
  then show ?case by simp
next
  case (Cons y ys)
  let ?F = "\<lambda>b. snd (probe_settle now (g b) b)"
  have "\<forall>x \<in> set pre. bid x \<noteq> bid y"
    using Cons.prems by (auto simp: image_iff)
  then have fin: "probe_finish now (bid y) (g y) (pre @ y # ys) = (pre @ [?F y]) @ ys"
    by (simp add: probe_finish_def upd_first_append)
  have "distinct (map bid ((pre @ [?F y]) @ ys))"
    using Cons.prems by simp
  then have "settle_all now (map (\<lambda>b. (bid b, Some (b, g b))) ys) ((pre @ [?F y]) @ ys) =
      (pre @ [?F y]) @ map ?F ys"
    by (rule Cons.IH)
  with fin show ?case by simp
qed

lemma testBackendConnection_settled:
  assumes "List.find (\<lambda>b. bid b = k) (backends s) = Some b"
  shows "\<exists>s'. testBackendConnection net now k s = Inr (fst (probe_settle now (net (probe_request b)) b), s') \<and>
              List.find (\<lambda>b. bid b = k) (backends s') = Some (snd (probe_settle now (net (probe_request b)) b)) \<and>
              ids s' = ids s"
  using assms by (simp add: testBackendConnection_found find_probe_finish ids_def)

text \<open>With unique ids every probe starts on its own instance and writes back to it.\<close>

lemma started_distinct:
  "distinct (ids s) \<Longrightarrow>
   map (\<lambda>k. (k, probe_start net s k)) (map bid (backends s)) =
     map (\<lambda>b. (bid b, Some (b, net (probe_request b)))) (backends s)"
  by (simp add: probe_start_distinct)

lemma settle_started_distinct:
  "distinct (ids s) \<Longrightarrow>
   settle_all now (map (\<lambda>b. (bid b, Some (b, net (probe_request b)))) (backends s)) (backends s) =
     map (\<lambda>b. snd (probe_settle now (net (probe_request b)) b)) (backends s)"
  using settle_all_distinct [of "[]" "backends s" now "\<lambda>b. net (probe_request b)"] by (simp add: ids_def)

lemma isConnected_probe_settle:
  "isConnected (snd (probe_settle now outcome b)) =
     (case outcome of Response status _ \<Rightarrow> response_ok status | NetworkError _ \<Rightarrow> False)"
  by (simp add: probe_settle_def split: fetch_outcome.split)

section \<open>Properties of the probe\<close>

text \<open>
  C12. A probe of a registered instance whose health request gets a 2xx answer
  reports success and marks that instance connected at the current time.
\<close>

theorem testBackendConnection_success:
  assumes "List.find (\<lambda>b. bid b = k) (backends s) = Some b"
    and "net (probe_request b) = Response status statusText" and "response_ok status"
  shows "\<exists>s'. testBackendConnection net now k s = Inr (\<lparr>success = True, message = MsgConnected\<rparr>, s') \<and>
              List.find (\<lambda>b. bid b = k) (backends s') =
                Some (b\<lparr>isConnected := True, lastConnected := Some now\<rparr>) \<and> ids s' = ids s"
  using testBackendConnection_settled [OF assms(1), of net now] assms(2,3)
  by (simp add: probe_settle_def)

theorem testBackendConnection_success_witness:
  "\<exists>s'. testBackendConnection (\<lambda>_. Response 200 ''OK'') 1000 ''local'' (init_store ''http://x'') =
          Inr (\<lparr>success = True, message = MsgConnected\<rparr>, s') \<and>
        List.find (\<lambda>b. bid b = ''local'') (backends s') =
          Some ((local_backend ''http://x'' True)\<lparr>isConnected := True, lastConnected := Some 1000\<rparr>) \<and>
        ids s' = ids (init_store ''http://x'')"
  by (rule testBackendConnection_success [where status = 200 and statusText = "''OK''"]) (simp_all add: init_store_def local_backend_def response_ok_def)

text \<open>
  C13. A probe whose request gets a non-2xx answer reports failure carrying the
  status and marks the instance disconnected, leaving \<open>lastConnected\<close> as it was.
\<close>

theorem testBackendConnection_http_failure:
  assumes "List.find (\<lambda>b. bid b = k) (backends s) = Some b"
    and "net (probe_request b) = Response status statusText" and "\<not> response_ok status"
  shows "\<exists>s'. testBackendConnection net now k s =
                Inr (\<lparr>success = False, message = MsgFailedStatus status\<rparr>, s') \<and>
              List.find (\<lambda>b. bid b = k) (backends s') = Some (b\<lparr>isConnected := False\<rparr>) \<and>
              ids s' = ids s"
  using testBackendConnection_settled [OF assms(1), of net now] assms(2,3)
  by (simp add: probe_settle_def)

theorem testBackendConnection_http_failure_witness:
  "\<exists>s'. testBackendConnection (\<lambda>_. Response 503 ''Service Unavailable'') 1000 ''local''
            (init_store ''http://x'') = Inr (\<lparr>success = False, message = MsgFailedStatus 503\<rparr>, s') \<and>
        List.find (\<lambda>b. bid b = ''local'') (backends s') =
          Some ((local_backend ''http://x'' True)\<lparr>isConnected := False\<rparr>) \<and>
        ids s' = ids (init_store ''http://x'')"
  by (rule testBackendConnection_http_failure [where status = 503 and statusText = "''Service Unavailable''"])
     (simp_all add: init_store_def local_backend_def response_ok_def)

text \<open>
  C14. A probe whose request fails in transport does not raise: it reports
  failure carrying the error message and marks the instance disconnected.
\<close>

theorem testBackendConnection_transport_failure:
  assumes "List.find (\<lambda>b. bid b = k) (backends s) = Some b"
    and "net (probe_request b) = NetworkError msg"
  shows "\<exists>s'. testBackendConnection net now k s = Inr (\<lparr>success = False, message = MsgError msg\<rparr>, s') \<and>
              List.find (\<lambda>b. bid b = k) (backends s') = Some (b\<lparr>isConnected := False\<rparr>) \<and>
              ids s' = ids s"
  using testBackendConnection_settled [OF assms(1), of net now] assms(2)
  by (simp add: probe_settle_def)

theorem testBackendConnection_transport_failure_witness:
  "\<exists>s'. testBackendConnection (\<lambda>_. NetworkError ''ECONNREFUSED'') 1000 ''local'' (init_store ''http://x'') =
          Inr (\<lparr>success = False, message = MsgError ''ECONNREFUSED''\<rparr>, s') \<and>
        List.find (\<lambda>b. bid b = ''local'') (backends s') =
          Some ((local_backend ''http://x'' True)\<lparr>isConnected := False\<rparr>) \<and>
        ids s' = ids (init_store ''http://x'')"
  by (rule testBackendConnection_transport_failure) (simp_all add: init_store_def local_backend_def)

text \<open>C15. Probing an id that is not registered raises the not-found error.\<close>

theorem testBackendConnection_unknown_id:
  "k \<notin> set (ids s) \<Longrightarrow> testBackendConnection net now k s = Inl InstanceNotFoundError"
  by (rule testBackendConnection_unknown)

theorem testBackendConnection_unknown_id_witness:
  "testBackendConnection (\<lambda>_. Response 200 ''OK'') 1000 ''nope'' (init_store ''http://x'') =
     Inl InstanceNotFoundError"
  by (rule testBackendConnection_unknown_id) (simp add: ids_def init_store_def local_backend_def)

text \<open>
  C16. \<open>testAllConnections\<close> returns one result per registered instance, tagged
  with the instance ids in registry order, and none of them is a rejected probe,
  whatever the network answers.
\<close>

theorem testAllConnections_one_per_instance:
  "map backendId (fst (testAllConnections net now s)) = ids s \<and>
   list_all (\<lambda>r. settled r \<noteq> None) (fst (testAllConnections net now s))"
proof -
  let ?started = "map (\<lambda>k. (k, probe_start net s k)) (map bid (backends s))"
  let ?bs' = "settle_all now ?started (backends s)"
  have ids': "map bid ?bs' = map bid (backends s)"
    using settle_all_frame by blast
  then have len: "length ?bs' = length (backends s)"
    by (metis length_map)
  have tags: "map (\<lambda>i. bid (?bs' ! i)) [0..<length (backends s)] = map bid (backends s)"
  proof (rule nth_equalityI)
    fix i assume "i < length (map (\<lambda>i. bid (?bs' ! i)) [0..<length (backends s)])"
    then have i: "i < length (backends s)" by simp
    have "bid (?bs' ! i) = map bid ?bs' ! i" using i len by simp
    with i ids' show "map (\<lambda>i. bid (?bs' ! i)) [0..<length (backends s)] ! i = map bid (backends s) ! i"
      by simp
  qed simp
  have "\<forall>i < length (backends s). snd (?started ! i) \<noteq> None"
    using probe_start_found by fastforce
  then show ?thesis
    using tags by (simp add: testAllConnections_def Let_def ids_def list_all_length comp_def)
qed

text \<open>
  C17. With unique ids (as in every reachable state) the concurrent fan-out is the
  same as probing every instance on its own: each result and each instance's new
  connection state come from that instance's own request.
\<close>

theorem testAllConnections_independent:
  assumes "distinct (ids s)"
  shows "testAllConnections net now s =
    (map (\<lambda>b. \<lparr>backendId = bid b, settled = Some (fst (probe_settle now (net (probe_request b)) b))\<rparr>)
         (backends s),
     s\<lparr>backends := map (\<lambda>b. snd (probe_settle now (net (probe_request b)) b)) (backends s)\<rparr>)"
proof -
  let ?g = "\<lambda>b. net (probe_request b)"
  note started = started_distinct [OF assms, of net]
  note settle = settle_started_distinct [OF assms, of now net]
  have res: "map (\<lambda>i. \<lparr>backendId = bid (map (\<lambda>b. snd (probe_settle now (?g b) b)) (backends s) ! i),
                       settled = map_option (\<lambda>(b, outcome). fst (probe_settle now outcome b))
                                   (snd (map (\<lambda>b. (bid b, Some (b, ?g b))) (backends s) ! i))\<rparr>)
               [0..<length (backends s)] =
             map (\<lambda>b. \<lparr>backendId = bid b, settled = Some (fst (probe_settle now (?g b) b))\<rparr>) (backends s)"
    by (rule nth_equalityI) simp_all
  show ?thesis
    unfolding testAllConnections_def Let_def started settle
    using res by simp
qed

theorem testAllConnections_independent_witness:
  "testAllConnections (\<lambda>_. Response 200 ''OK'') 1000 (init_store ''http://x'') =
    (map (\<lambda>b. \<lparr>backendId = bid b,
                settled = Some (fst (probe_settle 1000 ((\<lambda>_. Response 200 ''OK'') (probe_request b)) b))\<rparr>)
         (backends (init_store ''http://x'')),
     (init_store ''http://x'')\<lparr>backends := map (\<lambda>b. snd (probe_settle 1000 ((\<lambda>_. Response 200 ''OK'') (probe_request b)) b))
                                   (backends (init_store ''http://x''))\<rparr>)"
  by (rule testAllConnections_independent) (simp add: ids_def init_store_def local_backend_def)

text \<open>
  C18. The probe always sends an \<open>Authorization\<close> header: for an instance
  without a password its value is the empty string, where the specification says
  the header is omitted.
\<close>

theorem probe_request_empty_authorization:
  "password b = [] \<Longrightarrow> map_of (req_headers (probe_request b)) ''Authorization'' = Some []"
  by (simp add: probe_request_def)

theorem probe_request_empty_authorization_witness:
  "map_of (req_headers (probe_request (local_backend ''http://x'' True))) ''Authorization'' = Some []"
  by (rule probe_request_empty_authorization) (simp add: local_backend_def)

text \<open>
  C38. With unique ids, after probing all instances the connected count is the
  number of instances whose own health request got a 2xx answer.
\<close>

theorem testAllConnections_connected_count:
  assumes "distinct (ids s)"
  shows "connectedBackendsCount (snd (testAllConnections net now s)) =
           length (filter (\<lambda>b. case net (probe_request b) of
                                  Response status _ \<Rightarrow> response_ok status
                                | NetworkError _ \<Rightarrow> False) (backends s))"
  unfolding testAllConnections_def Let_def started_distinct [OF assms] settle_started_distinct [OF assms]
  by (simp add: connectedBackendsCount_def filter_map comp_def isConnected_probe_settle)

theorem testAllConnections_connected_count_witness:
  "connectedBackendsCount (snd (testAllConnections (\<lambda>_. NetworkError ''down'') 1000 (init_store ''http://x''))) = 0"
proof -
  have "distinct (ids (init_store ''http://x''))"
    by (simp add: ids_def init_store_def)
  from testAllConnections_connected_count [OF this, of "\<lambda>_. NetworkError ''down''" 1000]
  show ?thesis by (simp add: init_store_def)
qed

end
