(* ===== verification/Proxy.thy ===== *)
theory Proxy
  imports Probe
begin

text \<open>
  The request proxy of \<open>src/page/src/stores/backend.js\<close>: \<open>buildApiUrl\<close>
  (lines 134--144), \<open>getAuthHeaders\<close> (lines 147--158) and \<open>apiRequest\<close>
  (lines 161--191). Headers are objects with string keys, modelled as association
  lists in insertion order; object spread \<open>{...a, ...b}\<close> is \<open>obj_assign\<close>.
  A thrown error is \<open>Inl\<close>; \<open>apiRequest\<close> returns the error or the response
  together with the store, because it writes the connection state before it
  returns or rethrows.
\<close>

subsection \<open>URL construction\<close>

text \<open>\<open>s.replace(/\/$/, '')\<close>: one trailing slash removed.\<close>

definition strip_trailing_slash :: "string \<Rightarrow> string" where
  "strip_trailing_slash u = (if u \<noteq> [] \<and> last u = CHR ''/'' then butlast u else u)"

text \<open>\<open>s.replace(/^\//, '')\<close>: one leading slash removed.\<close>

fun strip_leading_slash :: "string \<Rightarrow> string" where
  "strip_leading_slash [] = []"
| "strip_leading_slash (c # cs) = (if c = CHR ''/'' then cs else c # cs)"

text \<open>
  An undefined \<open>baseUrl\<close> makes \<open>backend.baseUrl.replace\<close> throw a
  \<open>TypeError\<close>.
\<close>

definition buildApiUrl :: "store \<Rightarrow> string \<Rightarrow> js_error + string" where
  "buildApiUrl s endpoint =
     (case activeBackend s of
        None \<Rightarrow> Inl NoActiveInstanceError
      | Some backend \<Rightarrow>
          (case baseUrl backend of
             None \<Rightarrow> Inl TypeError
           | Some u \<Rightarrow> Inr (strip_trailing_slash u @ ''/'' @ strip_leading_slash endpoint)))"

subsection \<open>Headers\<close>

definition getAuthHeaders :: "store \<Rightarrow> headers" where
  "getAuthHeaders s =
     (case activeBackend s of
        Some backend \<Rightarrow>
          if password backend \<noteq> []
          then [(''Content-Type'', ''application/json''), (''Authorization'', ''Bearer '' @ password backend)]
          else [(''Content-Type'', ''application/json'')]
      | None \<Rightarrow> [(''Content-Type'', ''application/json'')])"

text \<open>
  Writing one property of an object: an existing key keeps its position and takes
  the new value, a new key is appended.
\<close>

fun obj_set :: "headers \<Rightarrow> string \<times> string \<Rightarrow> headers" where
  "obj_set [] kv = [kv]"
| "obj_set ((k', v') # xs) (k, v) = (if k' = k then (k, v) # xs else (k', v') # obj_set xs (k, v))"

text \<open>Spreading object \<open>obj\<close> into \<open>acc\<close>: its properties written in order.\<close>

definition obj_assign :: "headers \<Rightarrow> headers \<Rightarrow> headers" where
  "obj_assign acc obj = fold (\<lambda>kv a. obj_set a kv) obj acc"

subsection \<open>The request\<close>

text \<open>
  The caller's \<open>options\<close>: \<open>method\<close> and \<open>body\<close> when given, and
  \<open>headers\<close> (the empty list when \<open>options.headers\<close> is undefined, whose spread
  adds nothing). \<open>fetch\<close> defaults the method to \<open>GET\<close>.
\<close>

record req_options =
  opt_method :: "string option"
  opt_headers :: headers
  opt_body :: "string option"

definition api_request_of :: "string \<Rightarrow> headers \<Rightarrow> req_options \<Rightarrow> http_request" where
  "api_request_of url hs options =
     \<lparr>req_url = url, req_method = (case opt_method options of None \<Rightarrow> ''GET'' | Some m \<Rightarrow> m),
      req_headers = hs, req_body = opt_body options\<rparr>"

text \<open>
  Lines 176--179 and 184--186: the connection state written on the instance
  \<open>activeBackend\<close> names, if there is one.
\<close>

definition mark_active :: "(backend \<Rightarrow> backend) \<Rightarrow> store \<Rightarrow> store" where
  "mark_active f s = s\<lparr>backends := upd_first (\<lambda>b. bid b = activeBackendId s) f (backends s)\<rparr>"

text \<open>Lines 162--169: the request \<open>apiRequest\<close> issues, or the error of \<open>buildApiUrl\<close>.\<close>

definition api_call :: "store \<Rightarrow> string \<Rightarrow> req_options \<Rightarrow> js_error + http_request" where
  "api_call s endpoint options =
     (case buildApiUrl s endpoint of
        Inl e \<Rightarrow> Inl e
      | Inr url \<Rightarrow>
          Inr (api_request_of url (obj_assign (obj_assign [] (getAuthHeaders s)) (opt_headers options))
                 options))"

definition apiRequest ::
  "network \<Rightarrow> nat \<Rightarrow> string \<Rightarrow> req_options \<Rightarrow> store \<Rightarrow> (js_error + (nat \<times> string)) \<times> store" where
  "apiRequest net now endpoint options s =
     (case api_call s endpoint options of
        Inl e \<Rightarrow> (Inl e, s)
      | Inr req \<Rightarrow>
          (case net req of
             Response status statusText \<Rightarrow>
               if response_ok status
               then (Inr (status, statusText),
                     mark_active (\<lambda>b. b\<lparr>isConnected := True, lastConnected := Some now\<rparr>) s)
               else (Inl (RequestFailedError status statusText),
                     mark_active (\<lambda>b. b\<lparr>isConnected := False\<rparr>) s)
           | NetworkError msg \<Rightarrow>
               (Inl (TransportError msg), mark_active (\<lambda>b. b\<lparr>isConnected := False\<rparr>) s)))"

subsection \<open>Lemmas\<close>

lemma map_of_obj_set [simp]: "map_of (obj_set acc (k, v)) = (map_of acc)(k \<mapsto> v)"
  by (induction acc) (auto simp: fun_upd_twist)

lemma map_of_obj_assign: "map_of (obj_assign acc obj) = map_of acc ++ map_of (rev obj)"
proof (induction obj arbitrary: acc)
  case Nil
  then show ?case by (simp add: obj_assign_def)
next
  case (Cons kv obj)
  obtain k v where kv: "kv = (k, v)" by fastforce
  have "map_of (obj_assign acc (kv # obj)) = map_of (obj_set acc kv) ++ map_of (rev obj)"
    using Cons.IH by (simp add: obj_assign_def)
  also have "\<dots> = map_of acc ++ map_of (rev (kv # obj))"
    by (rule ext) (simp add: kv map_add_def split: option.splits)
  finally show ?case .
qed

lemma strip_trailing_slash_simps [simp]:
  "strip_trailing_slash (u @ ''/'') = u"
  "u = [] \<or> last u \<noteq> CHR ''/'' \<Longrightarrow> strip_trailing_slash u = u"
  by (auto simp: strip_trailing_slash_def)

lemma strip_leading_slash_simps [simp]:
  "strip_leading_slash (''/'' @ e) = e"
  "e = [] \<or> hd e \<noteq> CHR ''/'' \<Longrightarrow> strip_leading_slash e = e"
  by (cases e; auto)+

lemma mark_active_frame:
  assumes "\<And>b. bid (f b) = bid b" and "\<And>b. isActive (f b) = isActive b"
  shows "map bid (backends (mark_active f s)) = map bid (backends s)"
    and "b \<in> set (backends (mark_active f s)) \<Longrightarrow>
         \<exists>b0 \<in> set (backends s). bid b = bid b0 \<and> isActive b = isActive b0"
   apply (simp add: mark_active_def map_upd_first assms)
  using assms by (fastforce simp: mark_active_def dest: in_set_upd_first)

lemma mark_active_inv:
  assumes "registry_inv s" and "\<And>b. bid (f b) = bid b" and "\<And>b. isActive (f b) = isActive b"
  shows "registry_inv (mark_active f s)"
proof -
  have "mark_active f s = s\<lparr>backends := backends (mark_active f s)\<rparr>"
    by (simp add: mark_active_def)
  moreover have "registry_inv (s\<lparr>backends := backends (mark_active f s)\<rparr>)"
    using assms mark_active_frame [where f = f and s = s] by (intro registry_inv_frame) auto
  ultimately show ?thesis by simp
qed

lemma activeBackend_mark_active:
  assumes "\<And>b. bid (f b) = bid b"
  shows "activeBackend (mark_active f s) = map_option f (activeBackend s)"
  using assms by (simp add: activeBackend_def mark_active_def find_upd_first)

lemma apiRequest_cases:
  "apiRequest net now e opts s = (r, s') \<Longrightarrow>
     s' = s \<or> s' = mark_active (\<lambda>b. b\<lparr>isConnected := True, lastConnected := Some now\<rparr>) s \<or>
     s' = mark_active (\<lambda>b. b\<lparr>isConnected := False\<rparr>) s"
  by (auto simp: apiRequest_def split: sum.splits fetch_outcome.splits if_splits)

lemma apiRequest_inv:
  "registry_inv s \<Longrightarrow> registry_inv (snd (apiRequest net now e opts s))"
  using apiRequest_cases [of net now e opts s "fst (apiRequest net now e opts s)"
                             "snd (apiRequest net now e opts s)"]
  by (auto simp: mark_active_inv)

lemma ids_apiRequest [simp]: "ids (snd (apiRequest net now e opts s)) = ids s"
  using apiRequest_cases [of net now e opts s "fst (apiRequest net now e opts s)"
                             "snd (apiRequest net now e opts s)"]
  by (auto simp: ids_def mark_active_frame)

lemma apiRequest_call:
  "api_call s e opts = Inr req \<Longrightarrow>
   apiRequest net now e opts s =
     (case net req of
        Response status statusText \<Rightarrow>
          if response_ok status
          then (Inr (status, statusText), mark_active (\<lambda>b. b\<lparr>isConnected := True, lastConnected := Some now\<rparr>) s)
          else (Inl (RequestFailedError status statusText), mark_active (\<lambda>b. b\<lparr>isConnected := False\<rparr>) s)
      | NetworkError msg \<Rightarrow> (Inl (TransportError msg), mark_active (\<lambda>b. b\<lparr>isConnected := False\<rparr>) s))"
  by (simp add: apiRequest_def)

lemma api_call_headers:
  "api_call s e opts = Inr req \<Longrightarrow>
   map_of (req_headers req) = map_of (rev (getAuthHeaders s)) ++ map_of (rev (opt_headers opts))"
  by (auto simp: api_call_def api_request_of_def map_of_obj_assign split: sum.splits)

text \<open>The request issued for \<open>/foo\<close> from the initial store, with no options.\<close>

definition no_options :: req_options where
  "no_options = \<lparr>opt_method = None, opt_headers = [], opt_body = None\<rparr>"

lemma demo_call:
  "api_call (init_store ''http://x'') ''/foo'' no_options =
     Inr \<lparr>req_url = ''http://x/foo'', req_method = ''GET'',
          req_headers = [(''Content-Type'', ''application/json'')], req_body = None\<rparr>"
  by (simp add: api_call_def buildApiUrl_def activeBackend_def init_store_def local_backend_def
                strip_trailing_slash_def getAuthHeaders_def obj_assign_def api_request_of_def
                no_options_def)

section \<open>Properties of the request proxy\<close>

text \<open>
  C19. With no active instance \<open>buildApiUrl\<close> raises the no-active-instance
  error, and \<open>apiRequest\<close> raises it before any request, leaving the store as it
  was.
\<close>

theorem apiRequest_no_active:
  "activeBackend s = None \<Longrightarrow>
   buildApiUrl s e = Inl NoActiveInstanceError \<and> apiRequest net now e opts s = (Inl NoActiveInstanceError, s)"
  by (simp add: buildApiUrl_def apiRequest_def api_call_def)

theorem apiRequest_no_active_witness:
  "buildApiUrl \<lparr>backends = [local_backend ''http://x'' True], activeBackendId = ''gone''\<rparr> ''/foo'' =
     Inl NoActiveInstanceError \<and>
   apiRequest (\<lambda>_. Response 200 ''OK'') 1000 ''/foo'' no_options
     \<lparr>backends = [local_backend ''http://x'' True], activeBackendId = ''gone''\<rparr> =
     (Inl NoActiveInstanceError, \<lparr>backends = [local_backend ''http://x'' True], activeBackendId = ''gone''\<rparr>)"
  by (rule apiRequest_no_active) (simp add: activeBackend_def local_backend_def)

text \<open>
  C20. The URL has exactly one slash where the base and the endpoint meet, whether
  the base carried a trailing slash, the endpoint a leading one, both or neither.
\<close>

theorem buildApiUrl_single_slash:
  assumes "activeBackend s = Some b" and "baseUrl b = Some base \<or> baseUrl b = Some (base @ ''/'')"
    and "base = [] \<or> last base \<noteq> CHR ''/''"
    and "e = path \<or> e = ''/'' @ path" and "path = [] \<or> hd path \<noteq> CHR ''/''"
  shows "buildApiUrl s e = Inr (base @ ''/'' @ path)"
  using assms by (auto simp: buildApiUrl_def) (simp_all add: strip_trailing_slash_def)

theorem buildApiUrl_single_slash_witness:
  "buildApiUrl (init_store ''http://h/'') ''/foo'' = Inr ''http://h/foo''"
proof -
  have "buildApiUrl (init_store ''http://h/'') ''/foo'' = Inr (''http://h'' @ ''/'' @ ''foo'')"
    by (rule buildApiUrl_single_slash [where b = "local_backend ''http://h/'' True"])
       (simp_all add: activeBackend_def init_store_def local_backend_def)
  then show ?thesis by simp
qed

text \<open>
  Only one trailing slash is removed from the base: a base ending in two
  slashes still yields a doubled slash in the URL.
\<close>

theorem buildApiUrl_double_slash:
  "buildApiUrl (init_store ''http://h//'') ''/foo'' = Inr ''http://h//foo''"
  by (simp add: buildApiUrl_def activeBackend_def init_store_def local_backend_def strip_trailing_slash_def)

text \<open>
  C22. A 2xx answer is returned to the caller and marks the active instance
  connected at the current time.
\<close>

theorem apiRequest_success:
  assumes "api_call s e opts = Inr req" and "net req = Response status statusText"
    and "response_ok status"
  shows "fst (apiRequest net now e opts s) = Inr (status, statusText) \<and>
         activeBackend (snd (apiRequest net now e opts s)) =
           map_option (\<lambda>b. b\<lparr>isConnected := True, lastConnected := Some now\<rparr>) (activeBackend s)"
  using assms by (simp add: apiRequest_call activeBackend_mark_active)

theorem apiRequest_success_witness:
  "fst (apiRequest (\<lambda>_. Response 200 ''OK'') 1000 ''/foo'' no_options (init_store ''http://x'')) =
     Inr (200, ''OK'') \<and>
   activeBackend (snd (apiRequest (\<lambda>_. Response 200 ''OK'') 1000 ''/foo'' no_options (init_store ''http://x''))) =
     map_option (\<lambda>b. b\<lparr>isConnected := True, lastConnected := Some 1000\<rparr>) (activeBackend (init_store ''http://x''))"
  by (rule apiRequest_success [OF demo_call]) (simp_all add: response_ok_def)

text \<open>
  C23. A non-2xx answer is not returned: \<open>apiRequest\<close> raises the
  request-failed error with status and status text, after marking the active
  instance disconnected.
\<close>

theorem apiRequest_http_failure:
  assumes "api_call s e opts = Inr req" and "net req = Response status statusText"
    and "\<not> response_ok status"
  shows "fst (apiRequest net now e opts s) = Inl (RequestFailedError status statusText) \<and>
         activeBackend (snd (apiRequest net now e opts s)) =
           map_option (\<lambda>b. b\<lparr>isConnected := False\<rparr>) (activeBackend s)"
  using assms by (simp add: apiRequest_call activeBackend_mark_active)

theorem apiRequest_http_failure_witness:
  "fst (apiRequest (\<lambda>_. Response 503 ''Service Unavailable'') 1000 ''/foo'' no_options (init_store ''http://x'')) =
     Inl (RequestFailedError 503 ''Service Unavailable'') \<and>
   activeBackend (snd (apiRequest (\<lambda>_. Response 503 ''Service Unavailable'') 1000 ''/foo'' no_options
                         (init_store ''http://x''))) =
     map_option (\<lambda>b. b\<lparr>isConnected := False\<rparr>) (activeBackend (init_store ''http://x''))"
  by (rule apiRequest_http_failure [OF demo_call]) (simp_all add: response_ok_def)

text \<open>
  C24. A transport failure is rethrown to the caller after the active instance is
  marked disconnected.
\<close>

theorem apiRequest_transport_failure:
  assumes "api_call s e opts = Inr req" and "net req = NetworkError msg"
  shows "fst (apiRequest net now e opts s) = Inl (TransportError msg) \<and>
         activeBackend (snd (apiRequest net now e opts s)) =
           map_option (\<lambda>b. b\<lparr>isConnected := False\<rparr>) (activeBackend s)"
  using assms by (simp add: apiRequest_call activeBackend_mark_active)

theorem apiRequest_transport_failure_witness:
  "fst (apiRequest (\<lambda>_. NetworkError ''ECONNREFUSED'') 1000 ''/foo'' no_options (init_store ''http://x'')) =
     Inl (TransportError ''ECONNREFUSED'') \<and>
   activeBackend (snd (apiRequest (\<lambda>_. NetworkError ''ECONNREFUSED'') 1000 ''/foo'' no_options
                         (init_store ''http://x''))) =
     map_option (\<lambda>b. b\<lparr>isConnected := False\<rparr>) (activeBackend (init_store ''http://x''))"
  by (rule apiRequest_transport_failure [OF demo_call]) simp

text \<open>
  C25. The request carries \<open>Authorization: Bearer\<close> with the active instance's
  password exactly when it has a non-empty one, unless the caller's headers set
  \<open>Authorization\<close> themselves, in which case the caller's last value wins.
\<close>

theorem apiRequest_authorization:
  "api_call s e opts = Inr req \<Longrightarrow>
   map_of (req_headers req) ''Authorization'' =
     (case map_of (rev (opt_headers opts)) ''Authorization'' of
        Some v \<Rightarrow> Some v
      | None \<Rightarrow> (case activeBackend s of
                  Some b \<Rightarrow> if password b \<noteq> [] then Some (''Bearer '' @ password b) else None
                | None \<Rightarrow> None))"
  by (simp add: api_call_headers map_add_def getAuthHeaders_def split: option.splits)

theorem apiRequest_authorization_witness:
  "map_of [(''Content-Type'', ''application/json'')] ''Authorization'' =
     (case map_of (rev (opt_headers no_options)) ''Authorization'' of
        Some v \<Rightarrow> Some v
      | None \<Rightarrow> (case activeBackend (init_store ''http://x'') of
                  Some b \<Rightarrow> if password b \<noteq> [] then Some (''Bearer '' @ password b) else None
                | None \<Rightarrow> None))"
  using apiRequest_authorization [OF demo_call] by simp

end
