(* ===== verification/Router.thy ===== *)
theory Router
  imports Prelude
begin

text \<open>
  The page router of \<open>src/page/src/router/index.js\<close>: a table of three routes,
  \<open>/\<close> to the dashboard view, \<open>/backends\<close> to the backend view, and the
  catch-all \<open>/:pathMatch(.*)*\<close> redirecting to \<open>/\<close>. Matching follows
  vue-router's defaults for these patterns: case-insensitive, with an optional
  trailing slash, static paths ranked before the catch-all (the table already lists
  them in that order). A redirect is followed by navigating again; the number of
  redirects followed is bounded by fuel, and two steps are enough for every path.
\<close>

datatype view = DashboardView | BackendView

datatype pattern = Static string | CatchAll string

datatype route_target = Component view | Redirect string

record route =
  rpath :: pattern
  rname :: "string option"
  rtarget :: route_target

definition routes :: "route list" where
  "routes =
     [\<lparr>rpath = Static ''/'', rname = Some ''dashboard'', rtarget = Component DashboardView\<rparr>,
      \<lparr>rpath = Static ''/backends'', rname = Some ''backends'', rtarget = Component BackendView\<rparr>,
      \<lparr>rpath = CatchAll ''pathMatch'', rname = None, rtarget = Redirect ''/''\<rparr>]"

definition lower_char :: "char \<Rightarrow> char" where
  "lower_char c = (if 65 \<le> (of_char c :: nat) \<and> (of_char c :: nat) \<le> 90 then char_of (of_char c + (32 :: nat)) else c)"

text \<open>A path as the matcher compares it: lower case, one trailing slash dropped.\<close>

definition norm_path :: "string \<Rightarrow> string" where
  "norm_path p = (let q = map lower_char p in if q \<noteq> [] \<and> last q = CHR ''/'' then butlast q else q)"

fun route_matches :: "pattern \<Rightarrow> string \<Rightarrow> bool" where
  "route_matches (Static p) q = (norm_path p = norm_path q)"
| "route_matches (CatchAll _) q = True"

definition resolve :: "string \<Rightarrow> route option" where
  "resolve q = List.find (\<lambda>r. route_matches (rpath r) q) routes"

fun navigate :: "nat \<Rightarrow> string \<Rightarrow> view option" where
  "navigate 0 q = None"
| "navigate (Suc n) q =
     (case resolve q of
        None \<Rightarrow> None
      | Some r \<Rightarrow> (case rtarget r of Component v \<Rightarrow> Some v | Redirect q' \<Rightarrow> navigate n q'))"

subsection \<open>Lemmas\<close>

lemma norm_path_root: "norm_path ''/'' = []"
  by (simp add: norm_path_def lower_char_def)

lemma norm_path_backends: "norm_path ''/backends'' = ''/backends''"
  by (simp add: norm_path_def lower_char_def)

lemma matches_static_backends:
  "route_matches (Static ''/backends'') q \<longleftrightarrow> norm_path q = ''/backends''"
  by (auto simp: norm_path_backends)

lemma resolve_cases:
  "resolve q = Some (if norm_path q = [] then routes ! 0
                     else if norm_path q = ''/backends'' then routes ! 1 else routes ! 2)"
  by (simp add: resolve_def routes_def norm_path_root norm_path_backends)

lemma navigate_root: "navigate (Suc n) ''/'' = Some DashboardView"
  by (simp add: resolve_cases routes_def norm_path_root)

lemmas router_simps = resolve_cases routes_def navigate_root matches_static_backends
  norm_path_root norm_path_backends

section \<open>Properties of the router\<close>

text \<open>
  C32. Every path renders a view after at most one redirect: \<open>/backends\<close> (in any
  letter case, with or without a trailing slash) the backend view, every other
  path the dashboard.
\<close>

theorem navigate_view:
  "navigate 2 q = Some (if route_matches (Static ''/backends'') q then BackendView else DashboardView)"
  by (simp add: numeral_2_eq_2 router_simps)



end
