(* ===== verification/Registry_Spec.thy ===== *)
theory Registry_Spec
  imports Backend
begin

text \<open>
  The registry's contract (specification, Registry and Active Selector) as an
  abstract state: a finite map from ids to instances and the active id. The
  abstract operations say what \<open>add\<close>, \<open>remove\<close>, \<open>update\<close> and
  \<open>activate\<close> promise; \<open>abs_store\<close> reads a concrete store as that map (the first
  instance with each id, as \<open>find\<close> sees it), and the refinement lemmas show that
  each operation of \<open>src/page/src/stores/backend.js\<close> commutes with it.
\<close>

record registry =
  instances :: "string \<rightharpoonup> backend"
  active :: string

definition abs_store :: "store \<Rightarrow> registry" where
  "abs_store s = \<lparr>instances = key_table bid (backends s), active = activeBackendId s\<rparr>"

text \<open>\<open>add\<close>: the new instance under a fresh id.\<close>

definition a_add :: "backend \<Rightarrow> registry \<Rightarrow> registry" where
  "a_add b r = r\<lparr>instances := (instances r)(bid b \<mapsto> b)\<rparr>"

text \<open>
  \<open>remove\<close>: refused for the reserved id; otherwise the id is dropped and a
  selection of it moves to the reserved instance.
\<close>

definition a_remove :: "string \<Rightarrow> registry \<Rightarrow> js_error + registry" where
  "a_remove k r =
     (if k = ''local'' then Inl ProtectedInstanceError
      else Inr \<lparr>instances = (instances r)(k := None),
                active = (if active r = k \<and> k \<in> dom (instances r) then ''local'' else active r)\<rparr>)"

text \<open>\<open>update\<close>: the patch merged into the instance with that id, if any.\<close>

definition a_update :: "string \<Rightarrow> patch \<Rightarrow> registry \<Rightarrow> registry" where
  "a_update k u r = r\<lparr>instances := (instances r)(k := map_option (\<lambda>b. object_assign b u) (instances r k))\<rparr>"

text \<open>
  \<open>activate\<close>: an unknown id is refused; a known one becomes the selection and
  the only instance flagged active.
\<close>

definition a_switch :: "string \<Rightarrow> registry \<Rightarrow> bool \<times> registry" where
  "a_switch k r =
     (if k \<in> dom (instances r)
      then (True, \<lparr>instances = (\<lambda>j. map_option (\<lambda>b. b\<lparr>isActive := (j = k)\<rparr>) (instances r j)),
                   active = k\<rparr>)
      else (False, r))"

subsection \<open>Lemmas\<close>

lemma dom_abs_store [simp]: "dom (instances (abs_store s)) = set (ids s)"
  by (simp add: abs_store_def dom_key_table ids_def)

lemma bid_object_assign: "p_id u = None \<Longrightarrow> bid (object_assign b u) = bid b"
  by (simp add: object_assign_def)

lemma key_table_flags_set:
  "key_table bid (upd_first (\<lambda>b. bid b = k) (\<lambda>b. b\<lparr>isActive := True\<rparr>)
                  (map (\<lambda>b. b\<lparr>isActive := False\<rparr>) bs)) =
   (\<lambda>j. map_option (\<lambda>b. b\<lparr>isActive := (j = k)\<rparr>) (key_table bid bs j))"
proof -
  have "key_table bid (map (\<lambda>b. b\<lparr>isActive := False\<rparr>) bs) =
          (\<lambda>j. map_option (\<lambda>b. b\<lparr>isActive := False\<rparr>) (key_table bid bs j))"
    by (rule key_table_map) simp
  then show ?thesis
    by (simp add: key_table_upd_first fun_eq_iff option.map_comp comp_def)
qed

section \<open>Refinement of the registry contract\<close>

text \<open>
  C34. \<open>addBackend\<close> with an id not yet registered refines the abstract
  \<open>add\<close>: the new instance appears under its id, the selection is unchanged.
\<close>

theorem addBackend_refines:
  "new_backend_id now \<notin> set (ids s) \<Longrightarrow>
   abs_store (snd (addBackend now d s)) = a_add (fst (addBackend now d s)) (abs_store s)"
  by (simp add: abs_store_def a_add_def addBackend_store key_table_snoc ids_def)

theorem addBackend_refines_witness:
  "abs_store (snd (addBackend 5 \<lparr>d_name = None, d_baseUrl = Some ''http://a'', d_password = None,
                                d_description = None\<rparr> (init_store ''http://x''))) =
   a_add (fst (addBackend 5 \<lparr>d_name = None, d_baseUrl = Some ''http://a'', d_password = None,
                              d_description = None\<rparr> (init_store ''http://x''))) (abs_store (init_store ''http://x''))"
  by (rule addBackend_refines)
     (simp add: ids_def init_store_def local_backend_def new_backend_id_def)

text \<open>
  C35. With unique ids, \<open>removeBackend\<close> refines the abstract \<open>remove\<close>: it is
  refused for the reserved id, and otherwise drops the id and moves a selection
  of it to the reserved instance.
\<close>

theorem removeBackend_refines:
  "distinct (ids s) \<Longrightarrow> map_sum id abs_store (removeBackend k s) = a_remove k (abs_store s)"
  by (cases "k = ''local''")
     (simp_all add: removeBackend_local removeBackend_eq a_remove_def abs_store_def
                    key_table_remove_first ids_def dom_key_table)

theorem removeBackend_refines_witness:
  "map_sum id abs_store (removeBackend ''local'' (init_store ''http://x'')) =
     a_remove ''local'' (abs_store (init_store ''http://x''))"
  by (rule removeBackend_refines) (simp add: ids_def init_store_def)

text \<open>
  C36. \<open>updateBackend\<close> with an \<open>updates\<close> object that does not write \<open>id\<close>
  refines the abstract \<open>update\<close>: the patch is merged into the instance with
  that id, if there is one, and nothing else changes.
\<close>

theorem updateBackend_refines:
  "p_id u = None \<Longrightarrow> abs_store (updateBackend k u s) = a_update k u (abs_store s)"
  by (simp add: abs_store_def a_update_def updateBackend_def key_table_upd_first bid_object_assign)

theorem updateBackend_refines_witness:
  "abs_store (updateBackend ''local'' no_updates (init_store ''http://x'')) =
     a_update ''local'' no_updates (abs_store (init_store ''http://x''))"
  by (rule updateBackend_refines) (simp add: no_updates_def)

text \<open>
  C37. \<open>switchBackend\<close> refines the abstract \<open>activate\<close> on every store:
  unknown ids are refused without change, a known id becomes the selection and
  the only id whose instance is flagged.
\<close>

theorem switchBackend_refines:
  "map_prod id abs_store (switchBackend k s) = a_switch k (abs_store s)"
proof (cases "k \<in> set (ids s)")
  case True
  then show ?thesis
    by (simp add: switchBackend_known a_switch_def abs_store_def key_table_flags_set dom_key_table ids_def)
next
  case False
  then show ?thesis
    by (simp add: switchBackend_unknown a_switch_def)
qed

end
