(* ===== verification/Persist.thy ===== *)
theory Persist
  imports Backend
begin

text \<open>
  The persistence adapter of \<open>src/page/src/stores/backend.js\<close>:
  \<open>saveToStorage\<close> (lines 194--200), \<open>loadFromStorage\<close> (lines 203--236),
  \<open>resetToDefault\<close> (lines 239--254) and the store's construction, which calls
  \<open>loadFromStorage\<close> once (line 257). \<open>localStorage\<close> is a map from keys to
  stored values. A stored value is either text that \<open>JSON.parse\<close> rejects (or
  that parses to a non-object, whose \<open>data.backends\<close> throws), caught and
  logged at line 234, or a parsed object, of which the code reads the two
  properties \<open>backends\<close> (when it is an array) and \<open>activeBackendId\<close>.
  \<open>JSON.stringify\<close> followed by \<open>JSON.parse\<close> is taken to return the same
  instance objects: every field is a string, a boolean, \<open>null\<close> or a number, and
  an undefined \<open>baseUrl\<close> is omitted and read back as undefined.
\<close>

record persisted =
  data_backends :: "backend list option"
  data_activeBackendId :: "string option"

datatype stored = Unparsable | Parsed persisted

type_synonym local_storage = "string \<Rightarrow> stored option"

definition storage_key :: string where
  "storage_key = ''hajimi_backends''"

definition saveToStorage :: "store \<Rightarrow> local_storage \<Rightarrow> local_storage" where
  "saveToStorage s ls =
     ls(storage_key \<mapsto> Parsed \<lparr>data_backends = Some (backends s),
                               data_activeBackendId = Some (activeBackendId s)\<rparr>)"

text \<open>
  Lines 211--225: a persisted array without the reserved instance gets one
  prepended, inactive, before it is adopted.
\<close>

definition adopt :: "string \<Rightarrow> backend list \<Rightarrow> backend list" where
  "adopt origin bs =
     (if list_ex (\<lambda>b. bid b = ''local'') bs then bs else local_backend origin False # bs)"

text \<open>
  Lines 203--236. A truthy persisted active id is first assigned, then handed to
  \<open>switchBackend\<close>, whose failure for an unknown id leaves the assignment in
  place.
\<close>

definition loadFromStorage :: "string \<Rightarrow> local_storage \<Rightarrow> store \<Rightarrow> store" where
  "loadFromStorage origin ls s =
     (case ls storage_key of
        None \<Rightarrow> s
      | Some Unparsable \<Rightarrow> s
      | Some (Parsed data) \<Rightarrow>
          (let s1 = (case data_backends data of
                       None \<Rightarrow> s
                     | Some bs \<Rightarrow> s\<lparr>backends := adopt origin bs\<rparr>)
           in case data_activeBackendId data of
                None \<Rightarrow> s1
              | Some a \<Rightarrow>
                  if a \<noteq> [] then snd (switchBackend a (s1\<lparr>activeBackendId := a\<rparr>)) else s1))"

definition resetToDefault :: "string \<Rightarrow> local_storage \<Rightarrow> store \<times> local_storage" where
  "resetToDefault origin ls =
     (let s = \<lparr>backends = [local_backend origin True], activeBackendId = ''local''\<rparr>
      in (s, saveToStorage s ls))"

text \<open>Lines 4--20 and 257: the refs' initial values, then one \<open>loadFromStorage\<close>.\<close>

definition useBackendStore :: "string \<Rightarrow> local_storage \<Rightarrow> store" where
  "useBackendStore origin ls = loadFromStorage origin ls (init_store origin)"

subsection \<open>Lemmas\<close>

lemma ids_activeBackendId_update [simp]: "ids (s\<lparr>activeBackendId := a\<rparr>) = ids s"
  by (simp add: ids_def)

lemma ids_backends_update [simp]: "ids (s\<lparr>backends := bs\<rparr>) = map bid bs"
  by (simp add: ids_def)

lemma local_in_adopt: "''local'' \<in> set (map bid (adopt origin bs))"
  by (auto simp: adopt_def local_backend_def list_ex_iff intro: rev_image_eqI)

lemma count_local_adopt:
  "count_list (map bid (adopt origin bs)) ''local'' = max 1 (count_list (map bid bs) ''local'')"
proof (cases "list_ex (\<lambda>b. bid b = ''local'') bs")
  case True
  then have "''local'' \<in> set (map bid bs)"
    by (auto simp: list_ex_iff intro: rev_image_eqI)
  then have "count_list (map bid bs) ''local'' \<noteq> 0"
    by (simp add: count_list_0_iff)
  with True show ?thesis by (simp add: adopt_def)
next
  case False
  then have "count_list (map bid bs) ''local'' = 0"
    by (auto simp: list_ex_iff count_list_0_iff image_iff)
  with False show ?thesis by (simp add: adopt_def local_backend_def)
qed

lemma adopt_canonical: "''local'' \<in> set (map bid bs) \<Longrightarrow> adopt origin bs = bs"
  by (auto simp: adopt_def list_ex_iff)

text \<open>What a load leaves of the ids: the old ones, or the adopted array's.\<close>

lemma ids_loadFromStorage:
  "ids (loadFromStorage origin ls s) = ids s \<or>
   (\<exists>data bs. ls storage_key = Some (Parsed data) \<and> data_backends data = Some bs \<and>
              ids (loadFromStorage origin ls s) = map bid (adopt origin bs))"
proof (cases "ls storage_key")
  case (Some v)
  show ?thesis
  proof (cases v)
    case (Parsed data)
    show ?thesis
      using Some Parsed
      by (cases "data_backends data"; cases "data_activeBackendId data")
         (simp_all add: loadFromStorage_def Let_def)
  qed (simp add: loadFromStorage_def Some)
qed (simp add: loadFromStorage_def)

lemma loadFromStorage_saved:
  "loadFromStorage origin (saveToStorage s ls) s0 =
     (let s1 = s0\<lparr>backends := adopt origin (backends s)\<rparr>
      in if activeBackendId s \<noteq> [] then snd (switchBackend (activeBackendId s) (s1\<lparr>activeBackendId := activeBackendId s\<rparr>))
         else s1)"
  by (simp add: loadFromStorage_def saveToStorage_def)

lemma store_eq_fields:
  "(s0 :: store)\<lparr>backends := backends s, activeBackendId := activeBackendId s\<rparr> = s"
  by (cases s0, cases s) simp

lemma baseUrls_switchBackend:
  "map baseUrl (backends (snd (switchBackend k s))) = map baseUrl (backends s)"
  by (cases "k \<in> set (ids s)")
     (simp_all add: switchBackend_known switchBackend_unknown map_upd_first)

lemma loadFromStorage_saved_inv:
  assumes "registry_inv s" and "activeBackendId s \<noteq> []"
  shows "loadFromStorage origin (saveToStorage s ls) s0 = snd (switchBackend (activeBackendId s) s)"
proof -
  have "''local'' \<in> set (map bid (backends s))"
    using assms(1) by (simp add: registry_inv_def ids_def)
  then have "adopt origin (backends s) = backends s"
    by (rule adopt_canonical)
  with assms(2) show ?thesis
    by (simp add: loadFromStorage_saved store_eq_fields)
qed

section \<open>Properties of persistence\<close>

text \<open>
  C26. Saving a registry whose flags mark exactly the active instance and loading
  it back, into any store, reproduces the registry exactly.
\<close>

theorem save_load_roundtrip:
  assumes "registry_inv s" and "flags_canonical s" and "activeBackendId s \<noteq> []"
  shows "loadFromStorage origin (saveToStorage s ls) s0 = s"
  using assms by (simp add: loadFromStorage_saved_inv switchBackend_canonical)

theorem save_load_roundtrip_witness:
  "loadFromStorage ''http://y'' (saveToStorage (init_store ''http://x'') Map.empty) (init_store ''http://y'') =
     init_store ''http://x''"
  by (rule save_load_roundtrip)
     (simp_all add: registry_inv_def flags_canonical_def ids_def init_store_def local_backend_def)

text \<open>
  C27. Saving any well-formed registry and loading it back keeps the ids, the
  base URLs and the active id, and repairs the flags so that exactly the active
  instance is flagged.
\<close>

theorem save_load_normalises:
  assumes "registry_inv s" and "activeBackendId s \<noteq> []"
    and "s' = loadFromStorage origin (saveToStorage s ls) s0"
  shows "ids s' = ids s \<and> map baseUrl (backends s') = map baseUrl (backends s) \<and>
         activeBackendId s' = activeBackendId s \<and> flags_canonical s'"
proof -
  have k: "activeBackendId s \<in> set (ids s)"
    using assms(1) by (simp add: registry_inv_def)
  have eq: "s' = snd (switchBackend (activeBackendId s) s)"
    using assms by (simp add: loadFromStorage_saved_inv)
  have "activeBackendId s' = activeBackendId s"
    using eq k by (simp add: switchBackend_known)
  with eq k assms(1) show ?thesis
    by (simp add: baseUrls_switchBackend switchBackend_flags_canonical)
qed

theorem save_load_normalises_witness:
  "ids (loadFromStorage ''http://y'' (saveToStorage (init_store ''http://x'') Map.empty) (init_store ''http://y'')) =
     ids (init_store ''http://x'') \<and>
   map baseUrl (backends (loadFromStorage ''http://y'' (saveToStorage (init_store ''http://x'') Map.empty)
                            (init_store ''http://y''))) = map baseUrl (backends (init_store ''http://x'')) \<and>
   activeBackendId (loadFromStorage ''http://y'' (saveToStorage (init_store ''http://x'') Map.empty)
                      (init_store ''http://y'')) = activeBackendId (init_store ''http://x'') \<and>
   flags_canonical (loadFromStorage ''http://y'' (saveToStorage (init_store ''http://x'') Map.empty)
                      (init_store ''http://y''))"
proof -
  have inv: "registry_inv (init_store ''http://x'')"
    by (rule registry_inv_init)
  have ne: "activeBackendId (init_store ''http://x'') \<noteq> []"
    by (simp add: init_store_def)
  show ?thesis
    by (rule save_load_normalises [OF inv ne refl])
qed

text \<open>
  C28. Loading a persisted array keeps exactly as many reserved instances as it
  had, and adds one only when it had none.
\<close>

theorem load_local_once:
  assumes "ls storage_key = Some (Parsed data)" and "data_backends data = Some bs"
  shows "count_list (ids (loadFromStorage origin ls s)) ''local'' = max 1 (count_list (map bid bs) ''local'')"
proof -
  have "ids (loadFromStorage origin ls s) = map bid (adopt origin bs)"
    using assms
    by (cases "data_activeBackendId data") (simp_all add: loadFromStorage_def Let_def)
  then show ?thesis by (simp add: count_local_adopt)
qed

theorem load_local_once_witness:
  "count_list (ids (loadFromStorage ''http://x''
      (Map.empty(storage_key \<mapsto> Parsed \<lparr>data_backends = Some [], data_activeBackendId = None\<rparr>))
      (init_store ''http://x''))) ''local'' = max 1 (count_list (map bid ([] :: backend list)) ''local'')"
proof -
  have a: "(Map.empty(storage_key \<mapsto> Parsed \<lparr>data_backends = Some [], data_activeBackendId = None\<rparr>))
             storage_key = Some (Parsed \<lparr>data_backends = Some [], data_activeBackendId = None\<rparr>)"
    by simp
  have b: "data_backends \<lparr>data_backends = Some ([] :: backend list), data_activeBackendId = None\<rparr> = Some []"
    by simp
  show ?thesis
    by (rule load_local_once [where ls = "Map.empty(storage_key \<mapsto> Parsed \<lparr>data_backends = Some [],
                                   data_activeBackendId = None\<rparr>)", OF a b])
qed

text \<open>C29. Whatever the store holds, loading never loses the reserved instance.\<close>

theorem load_keeps_local:
  "''local'' \<in> set (ids s) \<Longrightarrow> ''local'' \<in> set (ids (loadFromStorage origin ls s))"
  using ids_loadFromStorage [of origin ls s] local_in_adopt by auto

theorem load_keeps_local_witness:
  "''local'' \<in> set (ids (loadFromStorage ''http://x'' (\<lambda>_. Some Unparsable) (init_store ''http://x'')))"
  by (rule load_keeps_local) (simp add: ids_def init_store_def local_backend_def)

text \<open>
  Persisted data that is missing or that \<open>JSON.parse\<close> rejects is recovered
  from, not raised: the store is constructed with its default registry.
\<close>

theorem useBackendStore_recovers:
  "ls storage_key = None \<or> ls storage_key = Some Unparsable \<Longrightarrow> useBackendStore origin ls = init_store origin"
  by (auto simp: useBackendStore_def loadFromStorage_def)

theorem useBackendStore_recovers_witness:
  "useBackendStore ''http://x'' (Map.empty(storage_key \<mapsto> Unparsable)) = init_store ''http://x''"
  by (rule useBackendStore_recovers) simp

text \<open>
  C40. \<open>resetToDefault\<close> yields the default registry, well formed and with
  canonical flags, and persists it so that the next load restores exactly it.
\<close>

theorem resetToDefault_persists:
  assumes "resetToDefault origin ls = (s, ls')"
  shows "registry_inv s \<and> flags_canonical s \<and> loadFromStorage origin ls' s0 = s"
proof -
  have s: "s = init_store origin" and ls': "ls' = saveToStorage s ls"
    using assms by (auto simp: resetToDefault_def init_store_def Let_def)
  have inv: "registry_inv s"
    unfolding s by (rule registry_inv_init)
  have can: "flags_canonical s"
    using s by (simp add: flags_canonical_def init_store_def local_backend_def)
  have "activeBackendId s \<noteq> []"
    using s by (simp add: init_store_def)
  with inv can show ?thesis
    using ls' by (simp add: loadFromStorage_saved_inv switchBackend_canonical)
qed

theorem resetToDefault_persists_witness:
  "registry_inv (fst (resetToDefault ''http://x'' Map.empty)) \<and>
   flags_canonical (fst (resetToDefault ''http://x'' Map.empty)) \<and>
   loadFromStorage ''http://x'' (snd (resetToDefault ''http://x'' Map.empty)) (init_store ''http://y'') =
     fst (resetToDefault ''http://x'' Map.empty)"
  by (rule resetToDefault_persists) simp

end
