(* ===== verification/Interleave.thy ===== *)
theory Interleave
  imports Probe Persist
begin

text \<open>
  The instance objects of \<open>src/page/src/stores/backend.js\<close> as a heap. The
  array \<open>backends.value\<close> holds references; \<open>find\<close> returns a reference, and
  the writes of \<open>updateBackend\<close>, \<open>switchBackend\<close> and of a settling probe go
  to the object it references, whether or not it is still in the array.
  \<open>resetToDefault\<close> replaces the array by one holding a new object. This
  theory shows that the by-id model of the other theories is exact for
  sequential runs, and what happens when a probe's \<open>await\<close> is interleaved with
  another operation.
\<close>

record hstate =
  heap :: "nat \<Rightarrow> backend option"
  arr :: "nat list"
  h_active :: string
  next_addr :: nat

definition obj :: "hstate \<Rightarrow> nat \<Rightarrow> backend" where
  "obj h a = the (heap h a)"

text \<open>The store the refs show: the objects the array references, and the active id.\<close>

definition view :: "hstate \<Rightarrow> store" where
  "view h = \<lparr>backends = map (obj h) (arr h), activeBackendId = h_active h\<rparr>"

definition hwf :: "hstate \<Rightarrow> bool" where
  "hwf h \<longleftrightarrow> distinct (arr h) \<and> list_all (\<lambda>a. a < next_addr h) (arr h)"

text \<open>Lines 6--20: the initial array holds one object, the local instance.\<close>

definition h_init :: "string \<Rightarrow> hstate" where
  "h_init origin = \<lparr>heap = Map.empty(0 \<mapsto> local_backend origin True), arr = [0],
                    h_active = ''local'', next_addr = 1\<rparr>"

definition h_alloc :: "backend \<Rightarrow> hstate \<Rightarrow> nat \<times> hstate" where
  "h_alloc b h = (next_addr h, h\<lparr>heap := (heap h)(next_addr h \<mapsto> b), next_addr := Suc (next_addr h)\<rparr>)"

definition h_write :: "nat \<Rightarrow> backend \<Rightarrow> hstate \<Rightarrow> hstate" where
  "h_write a b h = h\<lparr>heap := (heap h)(a \<mapsto> b)\<rparr>"

definition h_find :: "string \<Rightarrow> hstate \<Rightarrow> nat option" where
  "h_find k h = List.find (\<lambda>a. bid (obj h a) = k) (arr h)"

subsection \<open>The operations on references\<close>

text \<open>Lines 33--47: a new object, pushed.\<close>

definition h_addBackend :: "nat \<Rightarrow> descriptor \<Rightarrow> hstate \<Rightarrow> hstate" where
  "h_addBackend now d h =
     (let (a, h1) = h_alloc (fst (addBackend now d (view h))) h in h1\<lparr>arr := arr h @ [a]\<rparr>)"

text \<open>Lines 50--64: the reference is spliced out; the object itself is untouched.\<close>

definition h_removeBackend :: "string \<Rightarrow> hstate \<Rightarrow> js_error + hstate" where
  "h_removeBackend k h =
     (if k = ''local'' then Inl ProtectedInstanceError
      else
        (let index = findIndex (\<lambda>a. bid (obj h a) = k) (arr h)
         in if -1 < index
            then Inr (h\<lparr>arr := splice1 (arr h) (nat index),
                       h_active := (if h_active h = k then ''local'' else h_active h)\<rparr>)
            else Inr h))"

text \<open>Lines 67--72: \<open>Object.assign\<close> on the object found.\<close>

definition h_updateBackend :: "string \<Rightarrow> patch \<Rightarrow> hstate \<Rightarrow> hstate" where
  "h_updateBackend k updates h =
     (case h_find k h of
        None \<Rightarrow> h
      | Some a \<Rightarrow> h_write a (object_assign (obj h a) updates) h)"

text \<open>Lines 75--89: \<open>forEach\<close> clears every referenced object, then the found one is set.\<close>

definition h_switchBackend :: "string \<Rightarrow> hstate \<Rightarrow> bool \<times> hstate" where
  "h_switchBackend k h =
     (case h_find k h of
        None \<Rightarrow> (False, h)
      | Some a \<Rightarrow>
          (let h1 = fold (\<lambda>a' g. h_write a' ((obj g a')\<lparr>isActive := False\<rparr>) g) (arr h) h
           in (True, (h_write a ((obj h1 a)\<lparr>isActive := True\<rparr>) h1)\<lparr>h_active := k\<rparr>)))"

text \<open>Lines 239--254 (without the write to \<open>localStorage\<close>): a new array with a new object.\<close>

definition h_resetToDefault :: "string \<Rightarrow> hstate \<Rightarrow> hstate" where
  "h_resetToDefault origin h =
     (let (a, h1) = h_alloc (local_backend origin True) h in h1\<lparr>arr := [a], h_active := ''local''\<rparr>)"

text \<open>
  Lines 93--105 and 107--118: the probe holds the reference it found; when it
  settles it writes to that object.
\<close>

definition h_probe_start :: "network \<Rightarrow> string \<Rightarrow> hstate \<Rightarrow> (nat \<times> fetch_outcome) option" where
  "h_probe_start net k h = map_option (\<lambda>a. (a, net (probe_request (obj h a)))) (h_find k h)"

definition h_probe_settle :: "nat \<Rightarrow> nat \<Rightarrow> fetch_outcome \<Rightarrow> hstate \<Rightarrow> probe_result \<times> hstate" where
  "h_probe_settle now a outcome h =
     (fst (probe_settle now outcome (obj h a)), h_write a (snd (probe_settle now outcome (obj h a))) h)"

subsection \<open>Operations that may run while a probe is pending\<close>

datatype h_op = OpAdd nat descriptor | OpRemove string | OpUpdate string patch | OpSwitch string
  | OpReset string

fun h_step :: "h_op \<Rightarrow> hstate \<Rightarrow> hstate" where
  "h_step (OpAdd now d) h = h_addBackend now d h"
| "h_step (OpRemove k) h = (case h_removeBackend k h of Inl _ \<Rightarrow> h | Inr h' \<Rightarrow> h')"
| "h_step (OpUpdate k u) h = h_updateBackend k u h"
| "h_step (OpSwitch k) h = snd (h_switchBackend k h)"
| "h_step (OpReset origin) h = h_resetToDefault origin h"


definition keeps_ids :: "h_op \<Rightarrow> bool" where
  "keeps_ids op = (case op of OpUpdate _ u \<Rightarrow> p_id u = None | OpReset _ \<Rightarrow> False | _ \<Rightarrow> True)"

subsection \<open>Lemmas on references\<close>

lemma obj_h_write [simp]: "obj (h_write a b h) = (obj h)(a := b)"
  by (simp add: obj_def h_write_def fun_eq_iff)

lemma h_write_fields [simp]:
  "arr (h_write a b h) = arr h" "h_active (h_write a b h) = h_active h"
  "next_addr (h_write a b h) = next_addr h"
  by (simp_all add: h_write_def)



lemma map_upd_fresh: "a \<notin> set xs \<Longrightarrow> map (f(a := v)) xs = map f xs"
  by (induction xs) auto

lemma map_upd_found:
  "distinct xs \<Longrightarrow> List.find (\<lambda>x. P (f x)) xs = Some a \<Longrightarrow>
   map (f(a := g (f a))) xs = upd_first P g (map f xs)"
proof (induction xs)
  case (Cons x xs)
  show ?case
  proof (cases "P (f x)")
    case True
    with Cons.prems have "x = a" and "a \<notin> set xs" by auto
    with True show ?thesis by (simp add: map_upd_fresh)
  next
    case False
    with Cons.prems have "x \<noteq> a"
      by (auto dest: find_SomeD)
    with False Cons show ?thesis by simp
  qed
qed simp

lemma fold_clear:
  assumes "distinct xs"
  shows "obj (fold (\<lambda>a' g. h_write a' (F (obj g a')) g) xs h) =
           (\<lambda>a. if a \<in> set xs then F (obj h a) else obj h a) \<and>
         arr (fold (\<lambda>a' g. h_write a' (F (obj g a')) g) xs h) = arr h \<and>
         h_active (fold (\<lambda>a' g. h_write a' (F (obj g a')) g) xs h) = h_active h \<and>
         next_addr (fold (\<lambda>a' g. h_write a' (F (obj g a')) g) xs h) = next_addr h"
  using assms by (induction xs arbitrary: h) (auto simp: fun_eq_iff)


lemma h_find_SomeD: "h_find k h = Some a \<Longrightarrow> a \<in> set (arr h) \<and> bid (obj h a) = k"
  unfolding h_find_def by (drule find_SomeD) simp


lemma obj_next_addr_update [simp]: "obj (h\<lparr>next_addr := n\<rparr>) = obj h"
  by (simp add: obj_def fun_eq_iff)

lemma h_alloc_write:
  "h_alloc b h = (next_addr h, (h_write (next_addr h) b h)\<lparr>next_addr := Suc (next_addr h)\<rparr>)"
  by (simp add: h_alloc_def h_write_def)

lemma obj_arr_update [simp]: "obj (h\<lparr>arr := xs\<rparr>) = obj h" "obj (h\<lparr>h_active := k\<rparr>) = obj h"
  by (simp_all add: obj_def fun_eq_iff)

lemma splice1_distinct:
  assumes "distinct xs"
  shows "distinct (splice1 xs i) \<and> set (splice1 xs i) \<subseteq> set xs"
proof -
  have "distinct (take i xs @ drop i xs)"
    using assms by simp
  then have "set (take i xs) \<inter> set (drop i xs) = {}"
    by (simp only: distinct_append)
  moreover have "set (drop (Suc i) xs) \<subseteq> set (drop i xs)"
    by (rule set_drop_subset_set_drop) simp
  ultimately show ?thesis
    using assms by (auto simp: splice1_def dest: in_set_takeD in_set_dropD)
qed

lemma hwf_fresh: "hwf h \<Longrightarrow> next_addr h \<notin> set (arr h)"
  by (auto simp: hwf_def list_all_iff)

subsection \<open>Sequential runs: references and ids agree\<close>






lemma hwf_h_step: "hwf h \<Longrightarrow> hwf (h_step op h)"
proof (cases op)
  case (OpAdd now d)
  assume "hwf h"
  then show ?thesis
    using OpAdd hwf_fresh [of h]
    by (auto simp: hwf_def list_all_iff h_addBackend_def h_alloc_write)
next
  case (OpRemove k)
  assume w: "hwf h"
  then show ?thesis
    using OpRemove splice1_distinct [of "arr h"]
    by (fastforce simp: hwf_def list_all_iff h_removeBackend_def Let_def split: sum.split)
next
  case (OpUpdate k u)
  assume "hwf h"
  then show ?thesis
    using OpUpdate by (simp add: hwf_def h_updateBackend_def split: option.split)
next
  case (OpSwitch k)
  assume "hwf h"
  then show ?thesis
    using OpSwitch fold_clear [of "arr h" "\<lambda>b. b\<lparr>isActive := False\<rparr>" h]
    by (simp add: hwf_def h_switchBackend_def Let_def split: option.split)
next
  case (OpReset origin)
  then show ?thesis
    by (simp add: hwf_def h_resetToDefault_def h_alloc_write)
qed

subsection \<open>A probe pending across another operation\<close>

lemma find_first_gone:
  "distinct xs \<Longrightarrow> List.find P xs = Some a \<Longrightarrow> a \<notin> set (remove_first P xs)"
  by (induction xs) (auto split: if_splits dest: find_SomeD)

lemma h_removeBackend_Inr:
  assumes "h_removeBackend k h = Inr h'"
  shows "arr h' = remove_first (\<lambda>a. bid (obj h a) = k) (arr h) \<and> obj h' = obj h \<and> k \<noteq> ''local''"
proof (cases "-1 < findIndex (\<lambda>a. bid (obj h a) = k) (arr h)")
  case True
  then show ?thesis
    using assms by (auto simp: h_removeBackend_def Let_def splice1_findIndex split: if_splits)
next
  case False
  then have "findIndex (\<lambda>a. bid (obj h a) = k) (arr h) = -1"
    using findIndex_ge [of "\<lambda>a. bid (obj h a) = k" "arr h"] by arith
  then show ?thesis
    using assms False by (auto simp: h_removeBackend_def Let_def split: if_splits)
qed

lemma ids_view: "ids (view h) = map (\<lambda>a. bid (obj h a)) (arr h)"
  by (simp add: ids_def view_def)

text \<open>
  After an operation that keeps ids, the reference a probe holds is either still
  in the array, under the same id, or gone together with every instance of that id.
\<close>

lemma held_reference_cases:
  assumes w: "hwf h" and d: "distinct (ids (view h))" and op: "keeps_ids op"
    and found: "h_find k h = Some a"
  shows "(a \<in> set (arr (h_step op h)) \<and> bid (obj (h_step op h) a) = k) \<or>
         (a \<notin> set (arr (h_step op h)) \<and> k \<notin> set (ids (view (h_step op h))))"
proof -
  have a: "a \<in> set (arr h)" and ka: "bid (obj h a) = k"
    using h_find_SomeD [OF found] by auto
  have dist: "distinct (arr h)"
    using w by (simp add: hwf_def)
  show ?thesis
  proof (cases op)
    case (OpAdd now d)
    have "a \<noteq> next_addr h"
      using a hwf_fresh [OF w] by auto
    then show ?thesis
      using OpAdd a ka by (simp add: h_addBackend_def h_alloc_write)
  next
    case (OpRemove k')
    show ?thesis
    proof (cases "h_removeBackend k' h")
      case (Inl e)
      then show ?thesis using OpRemove a ka by simp
    next
      case (Inr h')
      note r = h_removeBackend_Inr [OF Inr]
      show ?thesis
      proof (cases "k' = k")
        case True
        have "a \<notin> set (arr h')"
          using r True found dist by (simp add: h_find_def find_first_gone)
        moreover have "k \<notin> set (ids (view h'))"
          using r True d remove_first_key_gone [of "\<lambda>a. bid (obj h a)" "arr h" k]
          by (simp add: ids_view distinct_map_remove_first image_iff)
        ultimately show ?thesis using OpRemove Inr by simp
      next
        case False
        then have "a \<in> set (arr h')"
          using r a ka by (simp add: in_set_remove_first)
        then show ?thesis using OpRemove Inr r ka by simp
      qed
    qed
  next
    case (OpUpdate k' u)
    then have "p_id u = None"
      using op by (simp add: keeps_ids_def)
    then show ?thesis
      using OpUpdate a ka by (simp add: h_updateBackend_def object_assign_def split: option.split)
  next
    case (OpSwitch k')
    then show ?thesis
      using a ka fold_clear [OF dist, of "\<lambda>b. b\<lparr>isActive := False\<rparr>" h]
      by (simp add: h_switchBackend_def Let_def split: option.split)
  next
    case (OpReset origin)
    then show ?thesis using op by (simp add: keeps_ids_def)
  qed
qed

lemma write_held_view:
  assumes "distinct (arr h)" and "distinct (ids (view h))"
    and "(a \<in> set (arr h) \<and> bid (obj h a) = k) \<or> (a \<notin> set (arr h) \<and> k \<notin> set (ids (view h)))"
  shows "view (h_write a (F (obj h a)) h) =
           (view h)\<lparr>backends := upd_first (\<lambda>b. bid b = k) F (backends (view h))\<rparr>"
  using assms(3)
proof
  assume in_arr: "a \<in> set (arr h) \<and> bid (obj h a) = k"
  have "List.find (\<lambda>x. bid (obj h x) = bid (obj h a)) (arr h) = Some a"
    using find_distinct_key [of "\<lambda>x. bid (obj h x)" "arr h" a] assms(2) in_arr
    by (simp add: ids_view)
  then have "map ((obj h)(a := F (obj h a))) (arr h) = upd_first (\<lambda>b. bid b = k) F (map (obj h) (arr h))"
    using in_arr by (intro map_upd_found [OF assms(1)]) simp
  then show ?thesis by (simp add: view_def)
next
  assume out: "a \<notin> set (arr h) \<and> k \<notin> set (ids (view h))"
  then have "\<forall>b \<in> set (backends (view h)). bid b \<noteq> k"
    by (auto simp: ids_def)
  with out show ?thesis
    by (simp add: view_def map_upd_fresh)
qed

lemma hwf_h_init: "hwf (h_init origin)"
  by (simp add: hwf_def h_init_def)

lemma view_h_init: "view (h_init origin) = init_store origin"
  by (simp add: view_def h_init_def init_store_def obj_def)

lemma settle_held:
  "view (snd (h_probe_settle now a out h)) = view (h_write a (snd (probe_settle now out (obj h a))) h)"
  by (simp add: h_probe_settle_def)

lemma h_probe_start_Some:
  "h_probe_start net k h = Some (a, out) \<Longrightarrow> h_find k h = Some a"
  by (auto simp: h_probe_start_def)

section \<open>Properties of references and interleaving\<close>



text \<open>
  C21. A probe whose \<open>await\<close> is pending while another operation runs (an add,
  a removal, an update that keeps ids, a switch) writes, when it settles,
  exactly what the by-id model writes after that operation: the first instance
  with the probed id gets the new connection state, and nothing changes when
  that instance was removed. The atomic-await reading of the other theories is
  exact for these interleavings, as long as ids stay unique.
\<close>

theorem pending_probe_commutes:
  assumes "hwf h" and "distinct (ids (view h))" and "distinct (ids (view (h_step op h)))"
    and "keeps_ids op" and "h_probe_start net k h = Some (a, out)"
  shows "view (snd (h_probe_settle now a out (h_step op h))) =
           (view (h_step op h))\<lparr>backends := probe_finish now k out (backends (view (h_step op h)))\<rparr>"
proof -
  have "hwf (h_step op h)"
    using assms(1) by (rule hwf_h_step)
  then have "distinct (arr (h_step op h))"
    by (simp add: hwf_def)
  then show ?thesis
    unfolding settle_held probe_finish_def
    by (rule write_held_view [where F = "\<lambda>b. snd (probe_settle now out b)", OF _ assms(3)
             held_reference_cases [OF assms(1,2,4) h_probe_start_Some [OF assms(5)]]])
qed

theorem pending_probe_commutes_witness:
  "view (snd (h_probe_settle 1000 0 (Response 200 ''OK'') (h_step (OpSwitch ''local'') (h_init ''http://x'')))) =
     (view (h_step (OpSwitch ''local'') (h_init ''http://x'')))\<lparr>backends :=
        probe_finish 1000 ''local'' (Response 200 ''OK'')
          (backends (view (h_step (OpSwitch ''local'') (h_init ''http://x''))))\<rparr>"
proof (rule pending_probe_commutes [OF hwf_h_init])
  show "distinct (ids (view (h_init ''http://x'')))"
    by (simp add: view_h_init ids_def init_store_def)
  show "distinct (ids (view (h_step (OpSwitch ''local'') (h_init ''http://x''))))"
    by (simp add: h_switchBackend_def h_find_def h_init_def obj_def ids_view h_write_def)
  show "keeps_ids (OpSwitch ''local'')"
    by (simp add: keeps_ids_def)
  show "h_probe_start (\<lambda>_. Response 200 ''OK'') ''local'' (h_init ''http://x'') = Some (0, Response 200 ''OK'')"
    by (simp add: h_probe_start_def h_find_def h_init_def obj_def local_backend_def)
qed

text \<open>
  C39. A probe pending while \<open>resetToDefault\<close> runs writes to the object it
  found, which the new array no longer holds: its connection state is lost, and
  the fresh local instance keeps \<open>isConnected = false\<close> even when the probe
  reports success.
\<close>

theorem probe_across_reset_lost:
  assumes "hwf h" and "h_probe_start net k h = Some (a, out)"
  shows "view (snd (h_probe_settle now a out (h_step (OpReset origin) h))) = view (h_step (OpReset origin) h)"
proof -
  have "a \<in> set (arr h)"
    using h_find_SomeD [OF h_probe_start_Some [OF assms(2)]] by simp
  then have "a \<noteq> next_addr h"
    using hwf_fresh [OF assms(1)] by auto
  then show ?thesis
    unfolding settle_held by (simp add: h_resetToDefault_def h_alloc_write view_def)
qed

theorem probe_across_reset_lost_witness:
  "view (snd (h_probe_settle 1000 0 (Response 200 ''OK'') (h_step (OpReset ''http://x'') (h_init ''http://x'')))) =
     view (h_step (OpReset ''http://x'') (h_init ''http://x''))"
proof (rule probe_across_reset_lost [OF hwf_h_init])
  show "h_probe_start (\<lambda>_. Response 200 ''OK'') ''local'' (h_init ''http://x'') = Some (0, Response 200 ''OK'')"
    by (simp add: h_probe_start_def h_find_def h_init_def obj_def local_backend_def)
qed

text \<open>
  Under the atomic-await reading the same probe would have marked the fresh local
  instance connected: the interleaving is observable.
\<close>

lemma reset_probe_by_id_differs:
  "probe_finish 1000 ''local'' (Response 200 ''OK'') (backends (view (h_step (OpReset ''http://x'') h))) \<noteq>
     backends (view (h_step (OpReset ''http://x'') h))"
  by (simp add: probe_finish_def h_resetToDefault_def h_alloc_write view_def probe_settle_def
                response_ok_def local_backend_def)

end
