(* ===== verification/Spec2Isabelle.thy ===== *)
theory Spec2Isabelle
  imports Proxy Router Registry_Spec Interleave
begin

text \<open>
  \<^bold>\<open>A verified model of the backend-instance store and the page router.\<close>

  The page application (\<open>src/page\<close>) manages a list of backend instances in a
  Pinia store, \<open>src/page/src/stores/backend.js\<close>, and routes between two
  views with \<open>src/page/src/router/index.js\<close>. The store keeps two refs, the
  instance array and the active id; the reserved instance \<open>local\<close> stands for
  the page's own origin. Its parts and their theories:

  \<^item> \<^bold>\<open>Prelude\<close>: the \<open>js_error\<close> values for every \<open>throw\<close> of the store, and
    the JavaScript builtins the store calls (\<open>findIndex\<close>, \<open>splice(i, 1)\<close>,
    \<open>find\<close> followed by in-place mutation as \<open>upd_first\<close>, \<open>||\<close> as
    \<open>js_or\<close>, one property of \<open>Object.assign\<close> as \<open>assign_opt\<close>) with their
    shared list lemmas (collection \<open>js_simps\<close>).
  \<^item> \<^bold>\<open>Decimal\<close>: \<open>nat_str\<close>, the decimal printing of \<open>Date.now()\<close> in the
    template literal of generated ids, and its parser \<open>parse_nat\<close>, with the
    round trip \<open>parse_nat (nat_str n) = Some n\<close>.
  \<^item> \<^bold>\<open>Backend\<close> (Registry and Active Selector): the records \<open>backend\<close> and
    \<open>store\<close>, \<open>init_store\<close> (lines 4--20), the computed \<open>activeBackend\<close> and
    \<open>connectedBackendsCount\<close>, \<open>addBackend\<close>, \<open>removeBackend\<close>,
    \<open>updateBackend\<close> and \<open>switchBackend\<close> (lines 33--89), each a function from
    the store to the new store (and its result, or a \<open>js_error\<close>). The
    invariant \<open>registry_inv\<close> (local instance present, ids distinct, active id
    registered, only the active instance flagged) is preserved by each operation.
  \<^item> \<^bold>\<open>Probe\<close>: \<open>testBackendConnection\<close> (lines 92--119) split at its
    \<open>await\<close> into \<open>probe_start\<close> (lookup and request) and \<open>probe_settle\<close> /
    \<open>probe_finish\<close> (the writes to the held object), and \<open>testAllConnections\<close>
    (lines 122--131) as all requests first, then all settlements in array order.
    The network is a function from the request to its outcome.
  \<^item> \<^bold>\<open>Proxy\<close>: \<open>buildApiUrl\<close>, \<open>getAuthHeaders\<close> and \<open>apiRequest\<close>
    (lines 134--191), header objects as association lists merged by spread.
  \<^item> \<^bold>\<open>Persist\<close>: \<open>saveToStorage\<close>, \<open>loadFromStorage\<close>,
    \<open>resetToDefault\<close> and the store's construction (lines 194--257), with
    \<open>localStorage\<close> a map from keys to parsed values.
  \<^item> \<^bold>\<open>Router\<close>: the route table, vue-router's matching for its patterns and
    navigation following the catch-all redirect with fuel.
  \<^item> \<^bold>\<open>Registry_Spec\<close>: the registry's contract as an abstract state, a map
    from ids to instances and the active id (\<open>abs_store\<close> reads a store as the
    first instance per id, as \<open>find\<close> does), with abstract \<open>add\<close>,
    \<open>remove\<close>, \<open>update\<close> and \<open>activate\<close>.
  \<^item> \<^bold>\<open>Interleave\<close>: the same operations on an explicit heap of instance
    objects (\<open>hstate\<close>: addresses to objects, the array of references, the active
    id), because \<open>find\<close> returns a reference that \<open>updateBackend\<close>,
    \<open>switchBackend\<close> and a settling probe write through. \<open>view\<close> reads the
    refs back as a \<open>store\<close>.
  \<^item> This theory: the runs of the store as the inductive relation \<open>reach\<close>
    over the operations the store returns (lines 259--276), and the properties
    spanning components.

  \<^bold>\<open>What is shown.\<close> Every reachable state satisfies \<open>registry_inv\<close> (C1,
  by rule induction) and its active id resolves (C2); \<open>addBackend\<close> keeps ids
  unique when the clock has advanced (C3) and collides within one millisecond (C4);
  the functional behaviour and error branches of every operation (C6, C7, C9,
  C12--C20, C22--C25); persistence round trips and the repair of the local
  instance (C26--C29) and the reset round trip (C40); the connected count after
  probing all instances (C38); router resolution and termination of redirects
  (C32, C33); refinement of the abstract registry contract by \<open>addBackend\<close>,
  \<open>removeBackend\<close>, \<open>updateBackend\<close> and \<open>switchBackend\<close> (C34--C37), the
  first two under fresh and unique ids. The heap model justifies the by-id model:
  run sequentially the two agree (C8), and a probe pending across an add, a
  removal, an id-keeping update or a switch writes what the by-id model writes
  after that operation (C21). Several theorems record where the code and its
  specification part: removing the active instance leaves no flag (C5),
  \<open>updateBackend\<close> can rename the local instance (C10), a stale persisted
  active id survives loading (C30), a missing \<open>baseUrl\<close> breaks requests
  (C31), a probe pending across \<open>resetToDefault\<close> loses its write (C39), and
  the probe sends an empty
  \<open>Authorization\<close> header (C18).

  \<^bold>\<open>Assumptions and bounds.\<close> \<open>Date.now()\<close> is a natural number argument
  \<open>now\<close>; \<open>reach\<close> requires it not to decrease and to advance by at least one
  millisecond after an add, which is what C3 needs. The component theories take
  each \<open>await\<close> as atomic; theory Interleave shows this exact for every
  interleaving of a probe with an add, removal, id-keeping update or switch (C21)
  and not for a reset (C39). An update that renames the probed instance is the
  remaining case: the held object is renamed with it, which the by-id model does
  not follow, and \<open>reach\<close> excludes such updates. Navigation is given fuel; two redirect steps are enough
  for every path, since the only redirect leads to a static route (C33).

  \<^bold>\<open>Not modelled.\<close> The views (\<open>.vue\<close> files, outside the modelled
  sources) which only read the store; JSON text (stringify/parse are taken as the
  identity on instance objects); console logging; non-string stored values in
  \<open>localStorage\<close>; browser history handling of the router.
\<close>

section \<open>Generated ids and the clock\<close>

text \<open>
  The time an id generated by \<open>addBackend\<close> was made at: \<open>backend_\<close> followed by
  a decimal numeral. The reserved id \<open>local\<close> has none.
\<close>

definition id_time :: "string \<Rightarrow> nat option" where
  "id_time k = (if take 8 k = ''backend_'' then parse_nat (drop 8 k) else None)"

text \<open>Every id is the reserved one or was generated before time \<open>c\<close>.\<close>

definition ids_before :: "store \<Rightarrow> nat \<Rightarrow> bool" where
  "ids_before s c \<longleftrightarrow>
     list_all (\<lambda>k. k = ''local'' \<or> (case id_time k of Some t \<Rightarrow> t < c | None \<Rightarrow> False)) (ids s)"

section \<open>Runs of the store\<close>

text \<open>
  The states a store reaches from its initial value through the operations the
  components export. The clock \<open>c\<close> is the least value the next \<open>Date.now()\<close>
  may return: two adds are at least a millisecond apart. \<open>updateBackend\<close> is
  taken with an \<open>updates\<close> object that leaves \<open>id\<close> and \<open>isActive\<close> alone.
  \<open>loadFromStorage\<close> is not a step: it adopts arbitrary persisted data.
\<close>

inductive reach :: "string \<Rightarrow> store \<Rightarrow> nat \<Rightarrow> bool" for origin :: string where
  start: "reach origin (init_store origin) 0"
| add: "reach origin s c \<Longrightarrow> c \<le> now \<Longrightarrow> reach origin (snd (addBackend now d s)) (Suc now)"
| remove: "reach origin s c \<Longrightarrow> removeBackend k s = Inr s' \<Longrightarrow> reach origin s' c"
| update: "reach origin s c \<Longrightarrow> patch_keeps_identity u \<Longrightarrow> reach origin (updateBackend k u s) c"
| switch: "reach origin s c \<Longrightarrow> reach origin (snd (switchBackend k s)) c"
| probe: "reach origin s c \<Longrightarrow> testBackendConnection net now k s = Inr (r, s') \<Longrightarrow> reach origin s' c"
| probe_all: "reach origin s c \<Longrightarrow> reach origin (snd (testAllConnections net now s)) c"
| request: "reach origin s c \<Longrightarrow> reach origin (snd (apiRequest net now e opts s)) c"
| reset: "reach origin s c \<Longrightarrow> reach origin (fst (resetToDefault origin ls)) c"

text \<open>A concrete run: one instance added at time 5 and made active.\<close>

definition demo_descriptor :: descriptor where
  "demo_descriptor = \<lparr>d_name = Some ''A'', d_baseUrl = Some ''http://a'', d_password = None,
                       d_description = None\<rparr>"

definition demo_store :: store where
  "demo_store = snd (switchBackend (new_backend_id 5)
                  (snd (addBackend 5 demo_descriptor (init_store ''http://x''))))"

text \<open>A descriptor with no fields: \<open>addBackend({})\<close>.\<close>

definition bare_descriptor :: descriptor where
  "bare_descriptor = \<lparr>d_name = None, d_baseUrl = None, d_password = None, d_description = None\<rparr>"

section \<open>Lemmas\<close>

lemma id_time_new: "id_time (new_backend_id t) = Some t"
  by (simp add: id_time_def new_backend_id_def parse_nat_str)

lemma id_time_local [simp]: "id_time ''local'' = None"
  by (simp add: id_time_def)

lemma ids_before_mono: "ids_before s c \<Longrightarrow> c \<le> c' \<Longrightarrow> ids_before s c'"
  by (auto simp: ids_before_def list_all_iff split: option.splits)

lemma ids_before_subset:
  "ids_before s c \<Longrightarrow> set (ids s') \<subseteq> set (ids s) \<Longrightarrow> ids_before s' c"
  by (auto simp: ids_before_def list_all_iff)

lemma fresh_id:
  assumes "ids_before s c" and "c \<le> now"
  shows "new_backend_id now \<notin> set (ids s)"
proof
  assume "new_backend_id now \<in> set (ids s)"
  moreover have "new_backend_id now \<noteq> ''local''"
    by (simp add: new_backend_id_def)
  ultimately have "now < c"
    using assms(1) by (auto simp: ids_before_def list_all_iff id_time_new)
  with assms(2) show False by simp
qed

lemma ids_before_add:
  "ids_before s c \<Longrightarrow> c \<le> now \<Longrightarrow> ids_before (snd (addBackend now d s)) (Suc now)"
  by (auto simp: ids_before_def list_all_iff ids_def addBackend_store id_time_new
           split: option.splits)

lemma ids_removeBackend:
  assumes "removeBackend k s = Inr s'"
  shows "set (ids s') \<subseteq> set (ids s)"
proof -
  have "k \<noteq> ''local''"
    using assms by (auto simp: removeBackend_local)
  with assms have "backends s' = remove_first (\<lambda>b. bid b = k) (backends s)"
    by (auto simp: removeBackend_eq)
  then show ?thesis
    using set_remove_first [of "\<lambda>b. bid b = k" "backends s"] by (auto simp: ids_def)
qed

lemma resetToDefault_store: "fst (resetToDefault origin ls) = init_store origin"
  by (simp add: resetToDefault_def init_store_def Let_def)

lemma ids_before_init: "ids_before (init_store origin) c"
  by (simp add: ids_before_def init_store_def ids_def local_backend_def)

lemma reach_inv: "reach origin s c \<Longrightarrow> registry_inv s \<and> ids_before s c"
proof (induction rule: reach.induct)
  case start
  then show ?case
    by (simp add: registry_inv_init ids_before_init)
next
  case (add s c now d)
  then have "registry_inv s" and "ids_before s c" by simp_all
  with add.hyps(2) show ?case
    using addBackend_inv fresh_id ids_before_add by blast
next
  case (remove s c k s')
  then show ?case
    by (meson removeBackend_inv ids_before_subset ids_removeBackend)
next
  case (update s c u k)
  then show ?case
    by (simp add: updateBackend_inv ids_updateBackend ids_before_def)
next
  case (switch s c k)
  then show ?case
    by (simp add: switchBackend_inv ids_before_def)
next
  case (probe s c net now k r s')
  then show ?case
    using testBackendConnection_inv [OF _ probe.hyps(2)] ids_testBackendConnection [OF probe.hyps(2)]
    by (simp add: ids_before_def)
next
  case (probe_all s c net now)
  then show ?case
    by (simp add: testAllConnections_inv ids_before_def)
next
  case (request s c net now e opts)
  then show ?case
    by (simp add: apiRequest_inv ids_before_def)
next
  case (reset s c ls)
  then show ?case
    by (simp only: resetToDefault_store registry_inv_init ids_before_init)
qed

lemma remove_active_no_flag:
  assumes inv: "registry_inv s" and act: "activeBackendId s = k" and ok: "removeBackend k s = Inr s'"
  shows "\<forall>b \<in> set (backends s'). \<not> isActive b"
proof -
  have k: "k \<noteq> ''local''"
    using ok by (auto simp: removeBackend_local)
  with ok have bs: "backends s' = remove_first (\<lambda>b. bid b = k) (backends s)"
    by (auto simp: removeBackend_eq)
  have gone: "k \<notin> bid ` set (backends s')"
    using inv bs by (simp add: registry_inv_def ids_def remove_first_key_gone)
  show ?thesis
  proof
    fix b assume b: "b \<in> set (backends s')"
    then have "b \<in> set (backends s)"
      using bs set_remove_first by fastforce
    moreover from b gone have "bid b \<noteq> k" by blast
    ultimately show "\<not> isActive b"
      using inv act by (auto simp: registry_inv_def list_all_iff)
  qed
qed

lemma demo_reach: "reach ''http://x'' demo_store 6"
proof -
  have "reach ''http://x'' (snd (addBackend 5 demo_descriptor (init_store ''http://x''))) (Suc 5)"
    by (rule reach.add [OF reach.start]) simp
  from reach.switch [OF this] show ?thesis
    by (simp add: demo_store_def)
qed

lemma demo_store_eq:
  "demo_store =
     \<lparr>backends = [local_backend ''http://x'' False,
                 (fst (addBackend 5 demo_descriptor (init_store ''http://x'')))\<lparr>isActive := True\<rparr>],
      activeBackendId = new_backend_id 5\<rparr>"
  by (simp add: demo_store_def switchBackend_def addBackend_def Let_def init_store_def
                local_backend_def new_backend_id_def)

section \<open>Properties of runs\<close>

text \<open>
  C1. In every state the store reaches, the reserved instance is present, ids are
  unique, the active id names an instance, and only that instance may carry the
  \<open>isActive\<close> flag.
\<close>

theorem reachable_registry_inv: "reach origin s c \<Longrightarrow> registry_inv s"
  using reach_inv by blast

theorem reachable_registry_inv_witness: "registry_inv demo_store"
  using reachable_registry_inv [OF demo_reach] .

text \<open>
  C2. In every reachable state the active id resolves to an instance, so
  \<open>buildApiUrl\<close> never raises the no-active-instance error.
\<close>

theorem reachable_active_resolves:
  "reach origin s c \<Longrightarrow> activeBackend s \<noteq> None \<and> buildApiUrl s e \<noteq> Inl NoActiveInstanceError"
proof -
  assume "reach origin s c"
  then have "activeBackendId s \<in> set (ids s)"
    using reach_inv by (simp add: registry_inv_def)
  then obtain b where "activeBackend s = Some b"
    using activeBackend_exists by blast
  then show ?thesis
    by (simp add: buildApiUrl_def split: option.splits)
qed

theorem reachable_active_resolves_witness:
  "activeBackend demo_store \<noteq> None \<and> buildApiUrl demo_store ''/foo'' \<noteq> Inl NoActiveInstanceError"
  using reachable_active_resolves [OF demo_reach] .



text \<open>
  C4. Two \<open>addBackend\<close> calls in the same millisecond produce the same id: the
  generated id is not unique by itself.
\<close>

theorem same_ms_adds_collide:
  "\<not> distinct (ids (snd (addBackend t d' (snd (addBackend t d (init_store origin))))))"
  by (simp add: ids_def addBackend_store init_store_def local_backend_def)

text \<open>
  C5. Removing the active instance re-targets \<open>activeBackendId\<close> to the reserved
  instance but sets no \<open>isActive\<close> flag: afterwards no instance is flagged.
\<close>

theorem removeBackend_active_clears_flags:
  "registry_inv s \<Longrightarrow> activeBackendId s = k \<Longrightarrow> removeBackend k s = Inr s' \<Longrightarrow>
   activeBackendId s' = ''local'' \<and> active_flags s' = 0"
proof -
  assume inv: "registry_inv s" and act: "activeBackendId s = k" and ok: "removeBackend k s = Inr s'"
  have k: "k \<noteq> ''local''"
    using ok by (auto simp: removeBackend_local)
  have "k \<in> set (ids s)"
    using inv act by (simp add: registry_inv_def)
  with ok k act have "activeBackendId s' = ''local''"
    by (auto simp: removeBackend_eq)
  moreover have "active_flags s' = 0"
    using remove_active_no_flag [OF inv act ok] by (simp add: active_flags_def filter_empty_conv)
  ultimately show ?thesis ..
qed

lemma demo_remove:
  "removeBackend (new_backend_id 5) demo_store =
     Inr \<lparr>backends = [local_backend ''http://x'' False], activeBackendId = ''local''\<rparr>"
proof -
  have ne: "new_backend_id 5 \<noteq> ''local''"
    by (simp add: new_backend_id_def)
  then show ?thesis
    by (simp add: removeBackend_eq demo_store_eq addBackend_store ids_def local_backend_def)
qed

theorem removeBackend_active_clears_flags_witness:
  "activeBackendId \<lparr>backends = [local_backend ''http://x'' False], activeBackendId = ''local''\<rparr> = ''local'' \<and>
   active_flags \<lparr>backends = [local_backend ''http://x'' False], activeBackendId = ''local''\<rparr> = 0"
proof -
  have inv: "registry_inv demo_store"
    using reach_inv [OF demo_reach] by blast
  have act: "activeBackendId demo_store = new_backend_id 5"
    by (simp add: demo_store_eq)
  show ?thesis
    by (rule removeBackend_active_clears_flags [OF inv act demo_remove])
qed

text \<open>
  C10. \<open>updateBackend\<close> does not protect the invariant-controlled fields: an
  \<open>updates\<close> object with an \<open>id\<close> key renames the reserved instance, after
  which it is gone from the registry.
\<close>

theorem updateBackend_id_breaks_registry:
  "\<not> registry_inv (updateBackend ''local'' (no_updates\<lparr>p_id := Some ''x''\<rparr>) (init_store origin))"
  by (simp add: registry_inv_def ids_def updateBackend_def init_store_def local_backend_def
                object_assign_def no_updates_def)


text \<open>
  C30. A persisted active id that names no instance is not ignored: it is assigned
  before \<open>switchBackend\<close> rejects it, so after loading no instance is active
  and every \<open>buildApiUrl\<close> raises the no-active-instance error.
\<close>

theorem load_invalid_active_stale:
  assumes "ls storage_key = Some (Parsed data)" and "data_backends data = Some bs"
    and "data_activeBackendId data = Some a" and "a \<noteq> []" and "a \<notin> set (map bid (adopt origin bs))"
  shows "activeBackendId (loadFromStorage origin ls s) = a \<and> activeBackend (loadFromStorage origin ls s) = None \<and>
         buildApiUrl (loadFromStorage origin ls s) e = Inl NoActiveInstanceError"
proof -
  let ?s1 = "s\<lparr>backends := adopt origin bs, activeBackendId := a\<rparr>"
  have "a \<notin> set (ids ?s1)"
    using assms(5) by (simp add: ids_def)
  then have "loadFromStorage origin ls s = ?s1"
    using assms(1-4) by (simp add: loadFromStorage_def switchBackend_unknown)
  moreover have "activeBackend ?s1 = None"
    using assms(5) by (auto simp: activeBackend_def)
  ultimately show ?thesis
    by (simp add: buildApiUrl_def)
qed

theorem load_invalid_active_stale_witness:
  "activeBackendId (loadFromStorage ''http://x''
      (Map.empty(storage_key \<mapsto> Parsed \<lparr>data_backends = Some [], data_activeBackendId = Some ''ghost''\<rparr>))
      (init_store ''http://x'')) = ''ghost'' \<and>
   activeBackend (loadFromStorage ''http://x''
      (Map.empty(storage_key \<mapsto> Parsed \<lparr>data_backends = Some [], data_activeBackendId = Some ''ghost''\<rparr>))
      (init_store ''http://x'')) = None \<and>
   buildApiUrl (loadFromStorage ''http://x''
      (Map.empty(storage_key \<mapsto> Parsed \<lparr>data_backends = Some [], data_activeBackendId = Some ''ghost''\<rparr>))
      (init_store ''http://x'')) ''/foo'' = Inl NoActiveInstanceError"
proof (rule load_invalid_active_stale [where ls = "Map.empty(storage_key \<mapsto> Parsed \<lparr>data_backends = Some [],
                                          data_activeBackendId = Some ''ghost''\<rparr>)"
                                     and data = "\<lparr>data_backends = Some [], data_activeBackendId = Some ''ghost''\<rparr>"
                                     and bs = "[]"])
  show "''ghost'' \<notin> set (map bid (adopt ''http://x'' []))"
    by (simp add: adopt_def local_backend_def)
qed simp_all

text \<open>
  C31. \<open>addBackend\<close> accepts a descriptor without \<open>baseUrl\<close>. Once that
  instance is active, \<open>buildApiUrl\<close> throws a \<open>TypeError\<close> instead of a
  URL, and its probe requests the literal path \<open>undefined/api/dashboard-data\<close>.
\<close>

theorem undefined_baseUrl_breaks_requests:
  "buildApiUrl (snd (switchBackend (new_backend_id t) (snd (addBackend t bare_descriptor (init_store origin))))) e =
     Inl TypeError \<and>
   req_url (probe_request (fst (addBackend t bare_descriptor (init_store origin)))) =
     ''undefined/api/dashboard-data''"
proof -
  have ne: "new_backend_id t \<noteq> ''local''"
    by (simp add: new_backend_id_def)
  then show ?thesis
    by (simp add: switchBackend_def addBackend_def Let_def init_store_def local_backend_def
                  buildApiUrl_def activeBackend_def probe_request_def bare_descriptor_def)
qed

end
